theory Spec2Isabelle
  imports Complex_Main
begin

section \<open>JavaScript values\<close>

text \<open>
  The front-end is TypeScript whose interfaces are erased at run time, so everything that
  comes out of \<^verbatim>\<open>JSON.parse\<close> or \<^verbatim>\<open>response.json()\<close> is an untyped value. Arrays
  carry holes (\<open>None\<close>), which \<^verbatim>\<open>delete arr[i]\<close> leaves behind; objects are association
  lists, in the order in which the keys are enumerated (the keys that the program adds are
  no array indices, so they are enumerated in insertion order). Strings hold the Latin-1
  characters.

  A number is a double: a finite one, given by its value, or one of \<^verbatim>\<open>Infinity\<close>,
  \<^verbatim>\<open>-Infinity\<close> and \<^verbatim>\<open>NaN\<close>. \<^verbatim>\<open>JSON.parse\<close> returns \<^verbatim>\<open>Infinity\<close> for a number token beyond
  the range of the doubles, such as \<^verbatim>\<open>1e400\<close>. The zeros \<^verbatim>\<open>0\<close> and \<^verbatim>\<open>-0\<close> are one number, as
  they are under \<^verbatim>\<open>===\<close>.
\<close>

datatype jsnum = Finite rat | Infinity | NegInfinity | NaN

datatype jsval =
    JUndefined
  | JNull
  | JBool bool
  | JNum jsnum
  | JStr string
  | JArr "jsval option list"
  | JObj "(string \<times> jsval) list"

datatype js_error =
    Error string
  | TypeError string
  | SyntaxError string
  | DOMException string

text \<open>The \<^verbatim>\<open>typeof\<close> operator.\<close>

fun typeof :: "jsval \<Rightarrow> string" where
  "typeof JUndefined = ''undefined''"
| "typeof JNull = ''object''"
| "typeof (JBool b) = ''boolean''"
| "typeof (JNum n) = ''number''"
| "typeof (JStr s) = ''string''"
| "typeof (JArr xs) = ''object''"
| "typeof (JObj kvs) = ''object''"

text \<open>Truthiness, as \<^verbatim>\<open>!x\<close>, \<^verbatim>\<open>x && y\<close> and \<^verbatim>\<open>x || y\<close> test it.\<close>

fun truthy :: "jsval \<Rightarrow> bool" where
  "truthy JUndefined = False"
| "truthy JNull = False"
| "truthy (JBool b) = b"
| "truthy (JNum n) = (n \<noteq> Finite 0 \<and> n \<noteq> NaN)"
| "truthy (JStr s) = (s \<noteq> [])"
| "truthy (JArr xs) = True"
| "truthy (JObj kvs) = True"

fun isArray :: "jsval \<Rightarrow> bool" where
  "isArray (JArr xs) = True"
| "isArray v = False"

text \<open>
  \<^verbatim>\<open>v.name\<close> on a value that is neither \<^verbatim>\<open>null\<close> nor \<^verbatim>\<open>undefined\<close>, for a name that is
  not inherited from a prototype and is neither an array index nor \<^verbatim>\<open>length\<close> (all the
  names the program reads are of this kind): an own property of an object, and
  \<^verbatim>\<open>undefined\<close> everywhere else. Reading a property of \<^verbatim>\<open>null\<close> or \<^verbatim>\<open>undefined\<close> raises,
  which is \<open>get_prop\<close>.
\<close>

fun prop_of :: "jsval \<Rightarrow> string \<Rightarrow> jsval" where
  "prop_of (JObj kvs) k = (case map_of kvs k of Some v \<Rightarrow> v | None \<Rightarrow> JUndefined)"
| "prop_of v k = JUndefined"

fun get_prop :: "jsval \<Rightarrow> string \<Rightarrow> js_error + jsval" where
  "get_prop JUndefined k = Inl (TypeError ''Cannot read properties of undefined'')"
| "get_prop JNull k = Inl (TypeError ''Cannot read properties of null'')"
| "get_prop v k = Inr (prop_of v k)"

subsection \<open>Strings\<close>

text \<open>The white space that \<^verbatim>\<open>String.prototype.trim\<close> strips, among the Latin-1 characters.\<close>

definition is_js_space :: "char \<Rightarrow> bool" where
  "is_js_space c = ((of_char c :: nat) \<in> {9, 10, 11, 12, 13, 32, 160})"

definition trim :: "string \<Rightarrow> string" where
  "trim s = rev (dropWhile is_js_space (rev (dropWhile is_js_space s)))"

text \<open>A non-negative integer as a decimal string: \<^verbatim>\<open>n.toString()\<close>, \<^verbatim>\<open>'' + n\<close>.\<close>

definition digit_char :: "nat \<Rightarrow> char" where
  "digit_char d = char_of (48 + d)"

function toString :: "nat \<Rightarrow> string" where
  "toString n = (if n < 10 then [digit_char n] else toString (n div 10) @ [digit_char (n mod 10)])"
  by pat_completeness auto
termination
  by (relation "measure id") auto

declare toString.simps [simp del]



section \<open>The chat client (Chatbot.tsx)\<close>

datatype sender = User | Bot

text \<open>\<^verbatim>\<open>new Date()\<close> reads the clock, \<^verbatim>\<open>new Date(x)\<close> converts a value.\<close>

datatype js_date = Date_of_clock nat | Date_of_value jsval

text \<open>
  \<^verbatim>\<open>ChatMessage\<close> of types.ts. The fields that the bot's answer fills from the response body
  are whatever the body holds, so they are values; an optional field that is absent is
  \<open>JUndefined\<close>, respectively \<open>None\<close>.
\<close>

record ChatMessage =
  msg_id :: string
  msg_text :: jsval
  msg_sender :: sender
  msg_timestamp :: js_date
  msg_citations :: jsval
  msg_confidence :: jsval
  msg_error :: "bool option"

record request =
  url :: string
  http_method :: string
  headers :: "(string \<times> string) list"
  body :: jsval

text \<open>
  What \<^verbatim>\<open>fetch\<close> does with a request: it rejects (a network error), or it resolves with a
  response whose \<^verbatim>\<open>ok\<close> flag and \<^verbatim>\<open>status\<close> the client reads, and whose \<^verbatim>\<open>json()\<close> either
  yields the parsed body or rejects.
\<close>

record response =
  ok :: bool
  status :: nat
  json :: "js_error + jsval"

datatype fetch_result = Rejected js_error | Resolved response

record chat_state =
  isOpen :: bool
  messages :: "ChatMessage list"
  inputValue :: string
  isTyping :: bool
  error :: "string option"

text \<open>
  The three clock readings of one turn: when the user's message is built, when the request
  is built, and when the answer or the failure is handled.
\<close>

record turn_clock =
  t_submit :: nat
  t_request :: nat
  t_settle :: nat

definition chat_request :: "string \<Rightarrow> nat \<Rightarrow> request" where
  "chat_request message now =
     \<lparr> url = ''/api/chat'',
       http_method = ''POST'',
       headers = [(''Content-Type'', ''application/json'')],
       body = JObj [(''message'', JStr message),
                    (''conversation_id'', JStr (''session_'' @ toString now)),
                    (''context_level'', JStr ''medium'')] \<rparr>"

text \<open>
  \<^verbatim>\<open>sendChatMessage\<close>: the request it sends, what it logs with \<^verbatim>\<open>console.error\<close>, and the
  message it returns or the error it rethrows.
\<close>

definition bot_message :: "nat \<Rightarrow> jsval \<Rightarrow> js_error + ChatMessage" where
  "bot_message now data =
     (case get_prop data ''response'' of
        Inl e \<Rightarrow> Inl e
      | Inr t \<Rightarrow> Inr \<lparr> msg_id = toString now,
                       msg_text = t,
                       msg_sender = Bot,
                       msg_timestamp = Date_of_value (prop_of data ''timestamp''),
                       msg_citations = prop_of data ''citations'',
                       msg_confidence = prop_of data ''confidence'',
                       msg_error = None \<rparr>)"

definition sendChatMessage_try ::
  "(request \<Rightarrow> fetch_result) \<Rightarrow> turn_clock \<Rightarrow> string \<Rightarrow> js_error + ChatMessage" where
  "sendChatMessage_try fetch clk message =
     (case fetch (chat_request message (t_request clk)) of
        Rejected e \<Rightarrow> Inl e
      | Resolved r \<Rightarrow>
          if \<not> ok r then Inl (Error (''HTTP error! status: '' @ toString (status r)))
          else (case json r of
                  Inl e \<Rightarrow> Inl e
                | Inr data \<Rightarrow> bot_message (t_settle clk) data))"

definition sendChatMessage ::
  "(request \<Rightarrow> fetch_result) \<Rightarrow> turn_clock \<Rightarrow> string
     \<Rightarrow> request \<times> js_error list \<times> (js_error + ChatMessage)" where
  "sendChatMessage fetch clk message =
     (chat_request message (t_request clk),
      (case sendChatMessage_try fetch clk message of Inl e \<Rightarrow> [e] | Inr m \<Rightarrow> []),
      sendChatMessage_try fetch clk message)"

definition apology :: string where
  "apology = ''I apologize, but I'm having trouble connecting right now. Please try again in a moment.''"

text \<open>
  \<^verbatim>\<open>handleSendMessage\<close>: the requests sent, the errors logged to the console, and the state
  after all its updates have been applied.
\<close>

definition handleSendMessage ::
  "(request \<Rightarrow> fetch_result) \<Rightarrow> turn_clock \<Rightarrow> chat_state
     \<Rightarrow> request list \<times> js_error list \<times> chat_state" where
  "handleSendMessage fetch clk s =
     (if trim (inputValue s) = [] \<or> isTyping s then ([], [], s)
      else
        let userMessage = \<lparr> msg_id = toString (t_submit clk),
                             msg_text = JStr (trim (inputValue s)),
                             msg_sender = User,
                             msg_timestamp = Date_of_clock (t_submit clk),
                             msg_citations = JUndefined,
                             msg_confidence = JUndefined,
                             msg_error = None \<rparr>;
            s1 = s \<lparr> messages := messages s @ [userMessage], inputValue := [],
                     isTyping := True, error := None \<rparr>;
            (req, logged, outcome) = sendChatMessage fetch clk (trim (inputValue s))
        in (case outcome of
              Inr answer \<Rightarrow>
                ([req], logged, s1 \<lparr> messages := messages s1 @ [answer], isTyping := False \<rparr>)
            | Inl err \<Rightarrow>
                let errorMessage = \<lparr> msg_id = toString (t_settle clk),
                                      msg_text = JStr apology,
                                      msg_sender = Bot,
                                      msg_timestamp = Date_of_clock (t_settle clk),
                                      msg_citations = JUndefined,
                                      msg_confidence = JUndefined,
                                      msg_error = Some True \<rparr>
                in ([req], logged @ [err],
                    s1 \<lparr> messages := messages s1 @ [errorMessage], isTyping := False,
                         error := Some ''Failed to get response. Please try again.'' \<rparr>)))"

text \<open>A call of \<^verbatim>\<open>POST /api/chat\<close> fails: the network fails, or the status is not OK.\<close>

fun call_failed :: "fetch_result \<Rightarrow> bool" where
  "call_failed (Rejected e) = True"
| "call_failed (Resolved r) = (\<not> ok r)"


section \<open>The search box (Search.tsx)\<close>

text \<open>
  \<^verbatim>\<open>SearchResult\<close>: each field holds what the response element held, so it is a value.
\<close>

record SearchResult =
  sr_id :: jsval
  sr_title :: jsval
  sr_content :: string
  sr_chapter :: jsval
  sr_section :: jsval
  sr_relevance :: jsval

record search_state =
  query :: string
  results :: "SearchResult option list"
  isSearching :: bool
  showResults :: bool
  selectedIndex :: int

definition search_request :: "string \<Rightarrow> request" where
  "search_request searchQuery =
     \<lparr> url = ''/api/chat/search'',
       http_method = ''POST'',
       headers = [(''Content-Type'', ''application/json'')],
       body = JObj [(''message'', JStr searchQuery),
                    (''context_level'', JStr ''detailed'')] \<rparr>"

text \<open>\<^verbatim>\<open>a || b\<close> and \<^verbatim>\<open>v?.name\<close>.\<close>

definition js_or :: "jsval \<Rightarrow> jsval \<Rightarrow> jsval" where
  "js_or a b = (if truthy a then a else b)"

fun opt_chain :: "jsval \<Rightarrow> string \<Rightarrow> jsval" where
  "opt_chain JUndefined k = JUndefined"
| "opt_chain JNull k = JUndefined"
| "opt_chain v k = prop_of v k"

text \<open>\<^verbatim>\<open>v.substring(0, 200)\<close>: only a string has the method.\<close>

fun substring_0_200 :: "jsval \<Rightarrow> js_error + string" where
  "substring_0_200 (JStr s) = Inr (take 200 s)"
| "substring_0_200 JUndefined = Inl (TypeError ''Cannot read properties of undefined'')"
| "substring_0_200 JNull = Inl (TypeError ''Cannot read properties of null'')"
| "substring_0_200 v = Inl (TypeError ''result.content.substring is not a function'')"

text \<open>
  The callback of \<^verbatim>\<open>data.results.map\<close>. \<open>String_of\<close> is the conversion to a string that a
  template literal applies to the value it interpolates.
\<close>

definition format_result :: "(jsval \<Rightarrow> string) \<Rightarrow> jsval \<Rightarrow> js_error + SearchResult" where
  "format_result String_of result =
     (case get_prop result ''source_id'' of
        Inl e \<Rightarrow> Inl e
      | Inr source_id \<Rightarrow>
          (case substring_0_200 (prop_of result ''content'') of
             Inl e \<Rightarrow> Inl e
           | Inr excerpt \<Rightarrow>
               Inr \<lparr> sr_id = source_id,
                     sr_title = js_or (opt_chain (prop_of result ''metadata'') ''section_title'')
                                      (JStr (''Content '' @ String_of source_id)),
                     sr_content = excerpt @ ''...'',
                     sr_chapter = js_or (opt_chain (prop_of result ''metadata'') ''chapter_title'')
                                        (JStr ''Unknown Chapter''),
                     sr_section = js_or (opt_chain (prop_of result ''metadata'') ''section_title'')
                                        (JStr ''Unknown Section''),
                     sr_relevance = prop_of result ''score'' \<rparr>))"

text \<open>\<^verbatim>\<open>Array.prototype.map\<close> with a callback that may raise: holes stay holes.\<close>

fun array_map :: "('a \<Rightarrow> js_error + 'b) \<Rightarrow> 'a option list \<Rightarrow> js_error + 'b option list" where
  "array_map f [] = Inr []"
| "array_map f (None # xs) =
     (case array_map f xs of Inl e \<Rightarrow> Inl e | Inr ys \<Rightarrow> Inr (None # ys))"
| "array_map f (Some x # xs) =
     (case f x of
        Inl e \<Rightarrow> Inl e
      | Inr y \<Rightarrow> (case array_map f xs of Inl e \<Rightarrow> Inl e | Inr ys \<Rightarrow> Inr (Some y # ys)))"

definition format_results :: "(jsval \<Rightarrow> string) \<Rightarrow> jsval \<Rightarrow> js_error + SearchResult option list" where
  "format_results String_of data =
     (case get_prop data ''results'' of
        Inl e \<Rightarrow> Inl e
      | Inr (JArr rs) \<Rightarrow> array_map (format_result String_of) rs
      | Inr JUndefined \<Rightarrow> Inl (TypeError ''Cannot read properties of undefined'')
      | Inr JNull \<Rightarrow> Inl (TypeError ''Cannot read properties of null'')
      | Inr v \<Rightarrow> Inl (TypeError ''data.results.map is not a function''))"

text \<open>
  \<^verbatim>\<open>handleSearch\<close>: the requests sent, the errors logged to the console, and the state after
  its updates.
\<close>

definition handleSearch ::
  "(jsval \<Rightarrow> string) \<Rightarrow> (request \<Rightarrow> fetch_result) \<Rightarrow> string \<Rightarrow> search_state
     \<Rightarrow> request list \<times> js_error list \<times> search_state" where
  "handleSearch String_of fetch searchQuery s =
     (if trim searchQuery = [] then ([], [], s \<lparr> results := [], showResults := False \<rparr>)
      else
        let s1 = s \<lparr> isSearching := True, showResults := True, selectedIndex := - 1 \<rparr>;
            req = search_request searchQuery
        in (case fetch req of
              Rejected e \<Rightarrow> ([req], [e], s1 \<lparr> results := [], isSearching := False \<rparr>)
            | Resolved r \<Rightarrow>
                if ok r then
                  (case json r of
                     Inl e \<Rightarrow> ([req], [e], s1 \<lparr> results := [], isSearching := False \<rparr>)
                   | Inr data \<Rightarrow>
                       (case format_results String_of data of
                          Inl e \<Rightarrow> ([req], [e], s1 \<lparr> results := [], isSearching := False \<rparr>)
                        | Inr formattedResults \<Rightarrow>
                            ([req], [], s1 \<lparr> results := formattedResults, isSearching := False \<rparr>)))
                else ([req], [], s1 \<lparr> results := [], isSearching := False \<rparr>)))"

section \<open>The search page (pages/search.tsx)\<close>

record hierarchy =
  lvl0 :: "string option"
  lvl1 :: "string option"
  lvl2 :: "string option"
  lvl3 :: "string option"
  lvl4 :: "string option"
  lvl5 :: "string option"
  lvl6 :: "string option"

record SearchHit =
  objectID :: string
  hit_url :: string
  title :: string
  excerpt :: "string option"
  hit_hierarchy :: hierarchy
  hit_content :: "string option"
  anchor :: "string option"

text \<open>
  The global \<^verbatim>\<open>window.__docusaurus_search\<close>, when it is truthy: its \<^verbatim>\<open>search\<close> member, when
  that is truthy, returns hits or a falsy value, or raises.
\<close>

record search_plugin =
  plugin_search :: "(string \<Rightarrow> js_error + SearchHit list option) option"

text \<open>\<open>None\<close> is an undefined \<^verbatim>\<open>window\<close>, respectively a falsy global.\<close>

record window =
  docusaurus_search :: "search_plugin option"

record page_state =
  hits :: "SearchHit list"
  loading :: bool
  page_error :: "string option"

definition mockHits :: "SearchHit list" where
  "mockHits =
     [\<lparr> objectID = ''1'', hit_url = ''/intro'', title = ''Introduction to Machine Learning'',
        excerpt = Some ''Learn the basics of machine learning and AI concepts.'',
        hit_hierarchy = \<lparr> lvl0 = Some ''Book'', lvl1 = Some ''Introduction'',
                          lvl2 = Some ''What is Machine Learning?'', lvl3 = None, lvl4 = None,
                          lvl5 = None, lvl6 = None \<rparr>,
        hit_content = None, anchor = None \<rparr>,
      \<lparr> objectID = ''2'', hit_url = ''/tutorial/linear-regression'',
        title = ''Linear Regression Tutorial'',
        excerpt = Some ''Step-by-step guide to implementing linear regression.'',
        hit_hierarchy = \<lparr> lvl0 = Some ''Tutorial'', lvl1 = Some ''Supervised Learning'',
                          lvl2 = Some ''Linear Regression'', lvl3 = None, lvl4 = None,
                          lvl5 = None, lvl6 = None \<rparr>,
        hit_content = None, anchor = None \<rparr>,
      \<lparr> objectID = ''3'', hit_url = ''/docs/chapter1/linear-algebra'',
        title = ''Linear Algebra Fundamentals'',
        excerpt = Some ''Essential linear algebra concepts for machine learning.'',
        hit_hierarchy = \<lparr> lvl0 = Some ''Book'', lvl1 = Some ''Chapter 1'',
                          lvl2 = Some ''Linear Algebra'', lvl3 = None, lvl4 = None,
                          lvl5 = None, lvl6 = None \<rparr>,
        hit_content = None, anchor = None \<rparr>]"

text \<open>
  The body of the effect that runs when \<^verbatim>\<open>query\<close> changes: the state after its immediate
  updates, and the timers it sets (the delay in milliseconds and the update the callback
  makes to the state it finds when it fires).
\<close>

definition search_effect ::
  "window option \<Rightarrow> string \<Rightarrow> page_state
     \<Rightarrow> page_state \<times> (nat \<times> (page_state \<Rightarrow> page_state)) list" where
  "search_effect win q s =
     (if q = [] then (s \<lparr> hits := [] \<rparr>, [])
      else
        let s1 = s \<lparr> loading := True, page_error := None \<rparr>
        in (case (case win of None \<Rightarrow> None | Some w \<Rightarrow> docusaurus_search w) of
              Some searchPlugin \<Rightarrow>
                (case plugin_search searchPlugin of
                   None \<Rightarrow> (s1, [])
                 | Some search \<Rightarrow>
                     (case search q of
                        Inr found \<Rightarrow>
                          (s1 \<lparr> hits := (case found of None \<Rightarrow> [] | Some hs \<Rightarrow> hs),
                                loading := False \<rparr>, [])
                      | Inl e \<Rightarrow>
                          (s1 \<lparr> page_error := Some ''Search plugin error'', loading := False \<rparr>, [])))
            | None \<Rightarrow>
                (s1, [(300, \<lambda>s'. s' \<lparr> hits := mockHits, loading := False \<rparr>)])))"


definition plugin_unavailable :: "window option \<Rightarrow> bool" where
  "plugin_unavailable win = (case win of None \<Rightarrow> True | Some w \<Rightarrow> docusaurus_search w = None)"

section \<open>The retrieval pipeline behind the chat endpoint\<close>

text \<open>
  The chat endpoint is served by a Python backend (chunking, context assembly, rate
  limiting) whose modules are not among the sources at hand; what follows is written from
  the design description of that pipeline.
\<close>

datatype backend_error = ProviderError | ProviderUnavailable | InvalidInput

record Chunk =
  chunk_id :: string
  chunk_text :: string
  chunk_chapter :: string
  chunk_section :: string
  sequence_index :: nat

subsection \<open>Chunker\<close>

text \<open>
  Modelled from the spec: the characters at which the chunker prefers to break, which end a
  sentence or a paragraph.
\<close>

definition is_sentence_end :: "char \<Rightarrow> bool" where
  "is_sentence_end c = (c \<in> {CHR ''.'', CHR ''!'', CHR ''?'', CHR 0x0A})"

text \<open>
  Modelled from the spec: the chunker's search for a boundary, the length of the longest
  prefix of \<open>w\<close> whose last character satisfies \<open>P\<close>; 0 when no character of \<open>w\<close> does.
\<close>

definition last_boundary :: "(char \<Rightarrow> bool) \<Rightarrow> string \<Rightarrow> nat" where
  "last_boundary P w = length (dropWhile (\<lambda>c. \<not> P c) (rev w))"

text \<open>
  Modelled from the spec: where the chunker cuts a text that exceeds the budget, at a sentence
  or paragraph end within the budget if there is one, else at white space, else at the budget.
\<close>

definition cut_point :: "nat \<Rightarrow> string \<Rightarrow> nat" where
  "cut_point budget ctext =
     (let w = take budget ctext;
          s = last_boundary is_sentence_end w;
          b = last_boundary is_js_space w
      in if 0 < s then s else if 0 < b then b else budget)"

text \<open>
  Modelled from the spec: the splitting of \<^verbatim>\<open>Chunker.chunk\<close>, which is not among the sources.
  The design has it split on paragraph and sentence boundaries, merging short segments and
  splitting long ones so that each chunk stays within a fixed character budget, preferring
  to break at a sentence end over breaking inside a sentence, never producing an empty chunk,
  with no randomness. So: a text that fits is one chunk; otherwise the chunk is the longest
  prefix within the budget that ends a sentence or a paragraph, or else the longest one
  that ends at white space, or else the first \<open>budget\<close> characters; the rest is chunked
  the same way.
\<close>

function chunk_texts :: "nat \<Rightarrow> string \<Rightarrow> string list" where
  "chunk_texts budget ctext =
     (if ctext = [] \<or> budget = 0 then []
      else if length ctext \<le> budget then [ctext]
      else take (cut_point budget ctext) ctext
             # chunk_texts budget (drop (cut_point budget ctext) ctext))"
  by pat_completeness auto
termination
proof (relation "measure (\<lambda>(budget, ctext). length ctext)")
  show "wf (measure (\<lambda>(budget, ctext). length ctext))" by simp
next
  fix budget :: nat and ctext :: string
  assume "\<not> (ctext = [] \<or> budget = 0)" and "\<not> length ctext \<le> budget"
  then have "0 < cut_point budget ctext"
    by (simp add: cut_point_def Let_def)
  moreover have "ctext \<noteq> []" using \<open>\<not> (ctext = [] \<or> budget = 0)\<close> by simp
  ultimately show "((budget, drop (cut_point budget ctext) ctext), (budget, ctext))
      \<in> measure (\<lambda>(budget, ctext). length ctext)"
    by simp
qed

declare chunk_texts.simps [simp del]

text \<open>
  Modelled from the spec: \<^verbatim>\<open>Chunker.chunk(chapterText, chapterId)\<close>, which is not among the
  sources: the pieces in order, each with its chapter, its section (as the content store
  locates the piece's position) and its position in the chapter.
\<close>

record chunker_config =
  chunk_budget :: nat
  section_at :: "string \<Rightarrow> nat \<Rightarrow> string"

definition chunk :: "chunker_config \<Rightarrow> string \<Rightarrow> string \<Rightarrow> Chunk list" where
  "chunk cfg chapterText chapterId =
     map (\<lambda>(i, t). \<lparr> chunk_id = chapterId @ ''-'' @ toString i,
                      chunk_text = t,
                      chunk_chapter = chapterId,
                      chunk_section = section_at cfg chapterId i,
                      sequence_index = i \<rparr>)
         (enumerate 0 (chunk_texts (chunk_budget cfg) chapterText))"

subsection \<open>Context assembler\<close>

text \<open>The hit of the vector store's search (the design's \<^verbatim>\<open>SearchHit\<close>).\<close>

record StoreHit =
  hit_chunk_id :: string
  score :: rat
  hit_chapter :: string
  hit_section :: string
  hit_excerpt :: string

text \<open>
  The collaborators of the assembler, which it consumes and does not implement: the
  embedding client, the vector store's search (hits by descending score) and its lookup of
  a chunk by id, the token counter, and the configured relevance threshold.
\<close>

record 'v assembler_config =
  embed :: "string \<Rightarrow> backend_error + 'v"
  search :: "'v \<Rightarrow> nat \<Rightarrow> backend_error + StoreHit list"
  lookup_chunk :: "string \<Rightarrow> Chunk option"
  count_tokens :: "string \<Rightarrow> nat"
  min_relevance :: rat

text \<open>
  Modelled from the spec: the assembler's accumulation into the token budget. Chunks are
  taken in order while the running total stays within the budget; the first one that does
  not fit is dropped whole, and the accumulation stops there.
\<close>

fun accumulate :: "(string \<Rightarrow> nat) \<Rightarrow> nat \<Rightarrow> nat \<Rightarrow> Chunk list \<Rightarrow> Chunk list" where
  "accumulate tokens tokenBudget used [] = []"
| "accumulate tokens tokenBudget used (c # cs) =
     (if used + tokens (chunk_text c) \<le> tokenBudget
      then c # accumulate tokens tokenBudget (used + tokens (chunk_text c)) cs
      else [])"

text \<open>
  Modelled from the spec: \<^verbatim>\<open>ContextAssembler.assemble\<close>, which is not among the sources. The
  design: embed the query, search the vector store, drop the hits below the relevance
  threshold, accumulate chunks into the token budget, stopping before the budget is
  exceeded (a chunk is never truncated), and cap the result at 3 chunks.
\<close>

definition assemble :: "'v assembler_config \<Rightarrow> string \<Rightarrow> nat \<Rightarrow> nat \<Rightarrow> backend_error + Chunk list" where
  "assemble cfg q topK tokenBudget =
     (case embed cfg q of
        Inl e \<Rightarrow> Inl e
      | Inr v \<Rightarrow>
          (case search cfg v topK of
             Inl e \<Rightarrow> Inl e
           | Inr found \<Rightarrow>
               let relevant = filter (\<lambda>h. min_relevance cfg \<le> score h) found;
                   chunks = List.map_filter (\<lambda>h. lookup_chunk cfg (hit_chunk_id h)) relevant
               in Inr (take 3 (accumulate (count_tokens cfg) tokenBudget 0 chunks))))"

subsection \<open>Rate limiter\<close>

record RateLimitWindow =
  client_key :: string
  window_start :: nat
  count :: nat

record limiter_config =
  window_length :: nat
  max_requests :: nat

type_synonym limiter_store = "string \<rightharpoonup> RateLimitWindow"

text \<open>
  Modelled from the spec: the window of the rate limiter that a request at time \<open>now\<close> falls
  in, the client's stored window while it has not expired, a new one (created by this
  request) otherwise.
\<close>

definition current_window :: "limiter_config \<Rightarrow> nat \<Rightarrow> string \<Rightarrow> limiter_store \<Rightarrow> RateLimitWindow" where
  "current_window cfg now clientKey store =
     (case store clientKey of
        None \<Rightarrow> \<lparr> client_key = clientKey, window_start = now, count = 0 \<rparr>
      | Some w \<Rightarrow>
          if now < window_start w + window_length cfg then w
          else \<lparr> client_key = clientKey, window_start = now, count = 0 \<rparr>)"

text \<open>
  Modelled from the spec: \<^verbatim>\<open>RateLimiter.admit\<close>, which is not among the sources. The design: a
  counter per client key over a window of fixed length, created on the first request in a
  window, incremented per request (one check-and-increment), reset when the window has
  expired; the request is allowed while the count stays within the maximum.
\<close>

definition admit :: "limiter_config \<Rightarrow> nat \<Rightarrow> string \<Rightarrow> limiter_store \<Rightarrow> bool \<times> limiter_store" where
  "admit cfg now clientKey store =
     (let w = current_window cfg now clientKey store;
          w' = w \<lparr> count := count w + 1 \<rparr>
      in (count w' \<le> max_requests cfg, store (clientKey \<mapsto> w')))"

text \<open>Requests (arrival time and client key) admitted one after the other.\<close>

fun admit_all :: "limiter_config \<Rightarrow> (nat \<times> string) list \<Rightarrow> limiter_store \<Rightarrow> bool list" where
  "admit_all cfg [] store = []"
| "admit_all cfg ((now, clientKey) # rs) store =
     fst (admit cfg now clientKey store) # admit_all cfg rs (snd (admit cfg now clientKey store))"

text \<open>The decisions, in order, that the requests of one client got.\<close>

definition decisions_for :: "string \<Rightarrow> (nat \<times> string) list \<Rightarrow> bool list \<Rightarrow> bool list" where
  "decisions_for clientKey rs ds = map snd (filter (\<lambda>(r, d). snd r = clientKey) (zip rs ds))"

definition no_live_window :: "limiter_config \<Rightarrow> nat \<Rightarrow> string \<Rightarrow> limiter_store \<Rightarrow> bool" where
  "no_live_window cfg now clientKey store =
     (case store clientKey of
        None \<Rightarrow> True
      | Some w \<Rightarrow> window_start w + window_length cfg \<le> now)"

section \<open>Progress tracking (the useProgress module)\<close>

subsection \<open>Objects, arrays and JSON text\<close>

text \<open>
  \<^verbatim>\<open>Object.keys\<close>: the own enumerable keys in order; the indices that are not holes for an
  array, all the indices for a string; it raises on \<^verbatim>\<open>null\<close> and \<^verbatim>\<open>undefined\<close>.
\<close>

definition array_keys :: "'a option list \<Rightarrow> string list" where
  "array_keys xs = map (\<lambda>(i, x). toString i) (filter (\<lambda>(i, x). x \<noteq> None) (enumerate 0 xs))"

fun Object_keys :: "jsval \<Rightarrow> js_error + string list" where
  "Object_keys JUndefined = Inl (TypeError ''Cannot convert undefined or null to object'')"
| "Object_keys JNull = Inl (TypeError ''Cannot convert undefined or null to object'')"
| "Object_keys (JObj kvs) = Inr (map fst kvs)"
| "Object_keys (JArr xs) = Inr (array_keys xs)"
| "Object_keys (JStr s) = Inr (map toString [0..<length s])"
| "Object_keys v = Inr []"

text \<open>The own enumerable properties that an object spread or a rest pattern copies.\<close>

fun entries :: "jsval \<Rightarrow> (string \<times> jsval) list" where
  "entries (JObj kvs) = kvs"
| "entries (JArr xs) = concat (map (\<lambda>(i, x). case x of None \<Rightarrow> [] | Some v \<Rightarrow> [(toString i, v)])
                                    (enumerate 0 xs))"
| "entries (JStr s) = map (\<lambda>(i, c). (toString i, JStr [c])) (enumerate 0 s)"
| "entries v = []"

text \<open>
  Writing a property: an existing key keeps its place, a new key goes last. An object
  literal with spreads, \<^verbatim>\<open>{...a, ...b, k: v}\<close>, writes the listed properties from left to
  right into a new object.
\<close>

definition set_key :: "string \<Rightarrow> jsval \<Rightarrow> (string \<times> jsval) list \<Rightarrow> (string \<times> jsval) list" where
  "set_key k v kvs =
     (if k \<in> set (map fst kvs) then map (\<lambda>(k', v'). if k' = k then (k', v) else (k', v')) kvs
      else kvs @ [(k, v)])"

definition assign :: "(string \<times> jsval) list \<Rightarrow> (string \<times> jsval) list \<Rightarrow> (string \<times> jsval) list" where
  "assign target source = fold (\<lambda>(k, v). set_key k v) source target"

definition delete_key :: "string \<Rightarrow> (string \<times> jsval) list \<Rightarrow> (string \<times> jsval) list" where
  "delete_key k kvs = filter (\<lambda>(k', v). k' \<noteq> k) kvs"

text \<open>
  The value that the text \<^verbatim>\<open>JSON.stringify(v)\<close> parses back to: a property whose value is
  \<^verbatim>\<open>undefined\<close> is left out, a hole or an \<^verbatim>\<open>undefined\<close> element of an array is written as
  \<^verbatim>\<open>null\<close>, and so is a number that is not finite.
\<close>

fun to_json :: "jsval \<Rightarrow> jsval" where
  "to_json (JObj kvs) =
     JObj (map (\<lambda>(k, v). (k, to_json v)) (filter (\<lambda>(k, v). v \<noteq> JUndefined) kvs))"
| "to_json (JArr xs) =
     JArr (map (\<lambda>x. case x of
                        None \<Rightarrow> Some JNull
                      | Some v \<Rightarrow> if v = JUndefined then Some JNull else Some (to_json v)) xs)"
| "to_json (JNum (Finite r)) = JNum (Finite r)"
| "to_json (JNum n) = JNull"
| "to_json v = v"

text \<open>
  What \<^verbatim>\<open>JSON.parse\<close> can return: no \<^verbatim>\<open>undefined\<close>, no hole, no \<^verbatim>\<open>NaN\<close>, and no key twice in
  an object.
\<close>

fun is_json :: "jsval \<Rightarrow> bool" where
  "is_json JUndefined = False"
| "is_json (JNum NaN) = False"
| "is_json (JObj kvs) = (distinct (map fst kvs) \<and> list_all (\<lambda>(k, v). is_json v) kvs)"
| "is_json (JArr xs) = list_all (\<lambda>x. case x of None \<Rightarrow> False | Some v \<Rightarrow> is_json v) xs"
| "is_json v = True"

text \<open>Every number in the value is finite.\<close>

fun finite_value :: "jsval \<Rightarrow> bool" where
  "finite_value (JNum (Finite r)) = True"
| "finite_value (JNum n) = False"
| "finite_value (JObj kvs) = list_all (\<lambda>(k, v). finite_value v) kvs"
| "finite_value (JArr xs) = list_all (\<lambda>x. case x of None \<Rightarrow> True | Some v \<Rightarrow> finite_value v) xs"
| "finite_value v = True"

text \<open>
  A string as \<^verbatim>\<open>JSON.parse\<close> sees it: a text it rejects, or a text it accepts, which is
  represented by the value it parses to. The empty string is a text it rejects.
\<close>

datatype json_text = Unparsable string | Serialized jsval

text \<open>
  The browser's \<^verbatim>\<open>localStorage\<close>, as far as the module uses it: the item under
  \<^verbatim>\<open>ai_ml_book_progress\<close>; whether every access raises (storage disabled); whether writing
  raises (quota exceeded).
\<close>

record local_storage =
  item :: "json_text option"
  blocked :: bool
  quota_exceeded :: bool

subsection \<open>Validation\<close>

text \<open>\<^verbatim>\<open>defaultProgress\<close>, whose \<^verbatim>\<open>lastActivity\<close> is the clock reading when the module loads.\<close>

definition defaultProgress :: "rat \<Rightarrow> jsval" where
  "defaultProgress loaded =
     JObj [(''completedChapters'', JArr []),
           (''timeSpent'', JObj []),
           (''quizScores'', JObj []),
           (''completedSections'', JArr []),
           (''lastActivity'', JNum (Finite loaded)),
           (''bookmarks'', JArr []),
           (''notes'', JObj [])]"

text \<open>\<^verbatim>\<open>Array.prototype.filter\<close>: holes are skipped, the result has none.\<close>

definition array_filter :: "(jsval \<Rightarrow> bool) \<Rightarrow> jsval \<Rightarrow> jsval" where
  "array_filter P v =
     (case v of
        JArr xs \<Rightarrow> JArr (filter (\<lambda>x. case x of None \<Rightarrow> False | Some e \<Rightarrow> P e) xs)
      | _ \<Rightarrow> v)"

definition valid_bookmark :: "jsval \<Rightarrow> bool" where
  "valid_bookmark bookmark =
     (truthy bookmark \<and> typeof (prop_of bookmark ''id'') = ''string''
      \<and> typeof (prop_of bookmark ''chapter'') = ''string''
      \<and> typeof (prop_of bookmark ''title'') = ''string'')"

text \<open>
  \<^verbatim>\<open>Object.keys(o).forEach(key => { if (typeof o[key] !== 'number') delete o[key]; })\<close>.
  Deleting an element of an array leaves a hole. The object is updated in place; its
  holder reads it again only through the validated result, so the updated value is
  returned.
\<close>

fun delete_non_numbers :: "jsval \<Rightarrow> js_error + jsval" where
  "delete_non_numbers JUndefined = Inl (TypeError ''Cannot convert undefined or null to object'')"
| "delete_non_numbers JNull = Inl (TypeError ''Cannot convert undefined or null to object'')"
| "delete_non_numbers (JObj kvs) =
     Inr (JObj (fold (\<lambda>key obj. if typeof (prop_of (JObj obj) key) \<noteq> ''number''
                                 then delete_key key obj else obj)
                  (map fst kvs) kvs))"
| "delete_non_numbers (JArr xs) =
     Inr (JArr (map (\<lambda>x. case x of
                             None \<Rightarrow> None
                           | Some v \<Rightarrow> if typeof v \<noteq> ''number'' then None else Some v) xs))"
| "delete_non_numbers v = Inr v"

text \<open>
  \<^verbatim>\<open>validateProgressData\<close>. \<open>dflt\<close> is the module's \<^verbatim>\<open>defaultProgress\<close> object and \<open>now\<close> the
  reading of \<^verbatim>\<open>Date.now()\<close>. The only statements that can raise are the two
  \<^verbatim>\<open>Object.keys\<close> calls, when \<^verbatim>\<open>timeSpent\<close> or \<^verbatim>\<open>quizScores\<close> is \<^verbatim>\<open>null\<close> (whose
  \<^verbatim>\<open>typeof\<close> is \<^verbatim>\<open>'object'\<close>).
\<close>

definition validateProgressData :: "jsval \<Rightarrow> rat \<Rightarrow> jsval \<Rightarrow> js_error + jsval" where
  "validateProgressData dflt now data =
     (if \<not> truthy data \<or> typeof data \<noteq> ''object'' then Inr dflt
      else
        let completedChapters =
              (if isArray (prop_of data ''completedChapters'')
               then prop_of data ''completedChapters'' else JArr []);
            timeSpent =
              (if typeof (prop_of data ''timeSpent'') = ''object''
               then prop_of data ''timeSpent'' else JObj []);
            quizScores =
              (if typeof (prop_of data ''quizScores'') = ''object''
               then prop_of data ''quizScores'' else JObj []);
            completedSections =
              (if isArray (prop_of data ''completedSections'')
               then prop_of data ''completedSections'' else JArr []);
            lastActivity =
              (if typeof (prop_of data ''lastActivity'') = ''number''
               then prop_of data ''lastActivity'' else JNum (Finite now));
            exportTimestamp = js_or (prop_of data ''exportTimestamp'') JUndefined;
            bookmarks =
              (if isArray (prop_of data ''bookmarks'') then prop_of data ''bookmarks'' else JArr []);
            notes =
              (if typeof (prop_of data ''notes'') = ''object'' then prop_of data ''notes'' else JObj [])
        in (case delete_non_numbers timeSpent of
              Inl e \<Rightarrow> Inl e
            | Inr timeSpent' \<Rightarrow>
                (case delete_non_numbers quizScores of
                   Inl e \<Rightarrow> Inl e
                 | Inr quizScores' \<Rightarrow>
                     Inr (JObj [(''completedChapters'',
                                   array_filter (\<lambda>ch. typeof ch = ''string'') completedChapters),
                                (''timeSpent'', timeSpent'),
                                (''quizScores'', quizScores'),
                                (''completedSections'',
                                   array_filter (\<lambda>sec. typeof sec = ''string'') completedSections),
                                (''lastActivity'', lastActivity),
                                (''exportTimestamp'', exportTimestamp),
                                (''bookmarks'', array_filter valid_bookmark bookmarks),
                                (''notes'', notes)]))))"

subsection \<open>Loading and saving\<close>

text \<open>
  The \<^verbatim>\<open>try\<close> block of \<^verbatim>\<open>loadProgress\<close>. The two readings of the clock in one call are one
  reading here.
\<close>

definition loadProgress_try :: "rat \<Rightarrow> rat \<Rightarrow> local_storage \<Rightarrow> js_error + jsval" where
  "loadProgress_try loaded now st =
     (if blocked st then Inl (DOMException ''The operation is insecure.'')
      else
        (case item st of
           None \<Rightarrow> Inr (defaultProgress loaded)
         | Some (Unparsable s) \<Rightarrow>
             if s = [] then Inr (defaultProgress loaded)
             else Inl (SyntaxError ''Unexpected token'')
         | Some (Serialized parsed) \<Rightarrow>
             (case validateProgressData (defaultProgress loaded) now parsed of
                Inl e \<Rightarrow> Inl e
              | Inr validated \<Rightarrow>
                  if truthy parsed
                     \<and> (\<not> truthy (prop_of parsed ''lastActivity'')
                        \<or> \<not> truthy (prop_of parsed ''completedSections''))
                  then Inr (JObj (assign (assign (entries (defaultProgress loaded)) (entries validated))
                                    [(''lastActivity'',
                                      js_or (prop_of parsed ''lastActivity'') (JNum (Finite now)))]))
                  else Inr validated)))"

text \<open>
  \<^verbatim>\<open>loadProgress\<close>: the progress it returns, the storage it leaves, and what it logs. The
  \<^verbatim>\<open>catch\<close> block removes the item, inside a \<^verbatim>\<open>try\<close> of its own, and returns the default.
\<close>

definition loadProgress :: "rat \<Rightarrow> rat \<Rightarrow> local_storage \<Rightarrow> jsval \<times> local_storage \<times> js_error list" where
  "loadProgress loaded now st =
     (case loadProgress_try loaded now st of
        Inr progress \<Rightarrow> (progress, st, [])
      | Inl e \<Rightarrow>
          if blocked st
          then (defaultProgress loaded, st, [e, DOMException ''The operation is insecure.''])
          else (defaultProgress loaded, st \<lparr> item := None \<rparr>, [e]))"

text \<open>\<^verbatim>\<open>saveProgress\<close>: whether it succeeded, and the storage it leaves.\<close>

definition saveProgress :: "rat \<Rightarrow> rat \<Rightarrow> jsval \<Rightarrow> local_storage \<Rightarrow> bool \<times> local_storage" where
  "saveProgress loaded now progress st =
     (case validateProgressData (defaultProgress loaded) now progress of
        Inl e \<Rightarrow> (False, st)
      | Inr validated \<Rightarrow>
          if blocked st \<or> quota_exceeded st then (False, st)
          else (True, st \<lparr> item := Some (Serialized (to_json validated)) \<rparr>))"

subsection \<open>Export and import\<close>

text \<open>
  \<^verbatim>\<open>exportProgressData\<close>: the text it returns (\<open>None\<close> for \<^verbatim>\<open>null\<close>) and the storage it
  leaves. \<open>exportDate\<close> is \<^verbatim>\<open>new Date().toISOString()\<close>.
\<close>

definition exportProgressData ::
  "rat \<Rightarrow> rat \<Rightarrow> string \<Rightarrow> local_storage \<Rightarrow> json_text option \<times> local_storage" where
  "exportProgressData loaded now exportDate st =
     (let (progress, st', logged) = loadProgress loaded now st
      in (case Object_keys (prop_of progress ''timeSpent'') of
            Inl e \<Rightarrow> (None, st')
          | Inr keys \<Rightarrow>
              (Some (Serialized (to_json (JObj (assign (entries progress)
                 [(''exportTimestamp'', JNum (Finite now)),
                  (''version'', JStr ''1.0''),
                  (''metadata'', JObj [(''totalChapters'', JNum (Finite 13)),
                                       (''totalSections'', JNum (Finite (of_nat (length keys)))),
                                       (''exportDate'', JStr exportDate)])])))),
               st')))"

text \<open>\<^verbatim>\<open>importProgressData\<close>: whether it succeeded, and the storage it leaves.\<close>

definition importProgressData ::
  "rat \<Rightarrow> rat \<Rightarrow> json_text \<Rightarrow> local_storage \<Rightarrow> bool \<times> local_storage" where
  "importProgressData loaded now jsonString st =
     (case jsonString of
        Unparsable s \<Rightarrow> (False, st)
      | Serialized importedData \<Rightarrow>
          if \<not> truthy importedData \<or> typeof importedData \<noteq> ''object'' then (False, st)
          else
            let progressData =
                  JObj (filter (\<lambda>(k, v). k \<notin> {''exportTimestamp'', ''version'', ''metadata''})
                          (entries importedData))
            in (case validateProgressData (defaultProgress loaded) now progressData of
                  Inl e \<Rightarrow> (False, st)
                | Inr validated \<Rightarrow>
                    saveProgress loaded now
                      (JObj (assign (entries validated) [(''lastActivity'', JNum (Finite now))])) st))"

subsection \<open>Observations on a progress object\<close>

text \<open>The six fields that carry the reader's progress.\<close>

definition core_fields :: "jsval \<Rightarrow> jsval list" where
  "core_fields progress =
     map (prop_of progress)
       [''completedChapters'', ''completedSections'', ''timeSpent'', ''quizScores'',
        ''bookmarks'', ''notes'']"

fun strings_only :: "jsval \<Rightarrow> bool" where
  "strings_only (JArr xs) = list_all (\<lambda>x. case x of None \<Rightarrow> False | Some v \<Rightarrow> typeof v = ''string'') xs"
| "strings_only v = False"

fun numbers_only :: "jsval \<Rightarrow> bool" where
  "numbers_only (JObj kvs) = list_all (\<lambda>(k, v). typeof v = ''number'') kvs"
| "numbers_only (JArr xs) = list_all (\<lambda>x. case x of None \<Rightarrow> True | Some v \<Rightarrow> typeof v = ''number'') xs"
| "numbers_only v = False"

fun bookmarks_only :: "jsval \<Rightarrow> bool" where
  "bookmarks_only (JArr xs) =
     list_all (\<lambda>x. case x of
                      None \<Rightarrow> False
                    | Some b \<Rightarrow> typeof (prop_of b ''id'') = ''string''
                               \<and> typeof (prop_of b ''chapter'') = ''string''
                               \<and> typeof (prop_of b ''title'') = ''string'') xs"
| "bookmarks_only v = False"

text \<open>
  What validation checks of a progress object: its seven required fields are present, its
  lists are arrays of strings, its two score maps map to numbers only, and every bookmark
  has a string \<^verbatim>\<open>id\<close>, \<^verbatim>\<open>chapter\<close> and \<^verbatim>\<open>title\<close>.
\<close>

definition listed_fields_valid :: "jsval \<Rightarrow> bool" where
  "listed_fields_valid p =
     (list_all (\<lambda>k. k \<in> set (map fst (entries p)) \<and> prop_of p k \<noteq> JUndefined)
        [''completedChapters'', ''timeSpent'', ''quizScores'', ''completedSections'',
         ''lastActivity'', ''bookmarks'', ''notes'']
      \<and> strings_only (prop_of p ''completedChapters'')
      \<and> strings_only (prop_of p ''completedSections'')
      \<and> numbers_only (prop_of p ''timeSpent'')
      \<and> numbers_only (prop_of p ''quizScores'')
      \<and> bookmarks_only (prop_of p ''bookmarks''))"

text \<open>
  A well-formed \<^verbatim>\<open>ProgressData\<close>: the above, and, as the interface declares them,
  \<^verbatim>\<open>lastActivity\<close> is a number and \<^verbatim>\<open>notes\<close> is an object, which \<^verbatim>\<open>null\<close> is not.
\<close>

definition well_formed_progress :: "jsval \<Rightarrow> bool" where
  "well_formed_progress p =
     (listed_fields_valid p
      \<and> typeof (prop_of p ''lastActivity'') = ''number''
      \<and> typeof (prop_of p ''notes'') = ''object''
      \<and> prop_of p ''notes'' \<noteq> JNull)"

text \<open>The storage holds nothing, or any text: one that does not parse, or JSON of any shape.\<close>

definition holds_text :: "local_storage \<Rightarrow> bool" where
  "holds_text st =
     (case item st of
        Some (Serialized v) \<Rightarrow> is_json v
      | _ \<Rightarrow> True)"

text \<open>
  The same, with finite numbers only in the JSON. Every text that \<^verbatim>\<open>JSON.stringify\<close> wrote is
  of this kind.
\<close>

definition holds_finite_text :: "local_storage \<Rightarrow> bool" where
  "holds_finite_text st =
     (case item st of
        Some (Serialized v) \<Rightarrow> is_json v \<and> finite_value v
      | _ \<Rightarrow> True)"

text \<open>
  A stored value that is a progress state as \<^verbatim>\<open>saveProgress\<close> leaves it: validating it and
  writing the result changes none of the six fields.
\<close>

definition kept_by_validation :: "rat \<Rightarrow> jsval \<Rightarrow> bool" where
  "kept_by_validation loaded v =
     (case validateProgressData (defaultProgress loaded) 0 v of
        Inl e \<Rightarrow> False
      | Inr validated \<Rightarrow> core_fields (to_json validated) = core_fields v)"

text \<open>The six fields of the stored item; nothing when the item is absent or does not parse.\<close>

definition stored_fields :: "local_storage \<Rightarrow> jsval list option" where
  "stored_fields st =
     (case item st of
        Some (Serialized v) \<Rightarrow> Some (core_fields v)
      | _ \<Rightarrow> None)"

text \<open>
  What every loaded progress object satisfies beyond the above: it is an object, its
  bookmarks and its notes hold nothing that JSON text cannot hold, and \<^verbatim>\<open>notes\<close> has type
  \<^verbatim>\<open>'object'\<close>.
\<close>

fun stored_bookmarks :: "jsval \<Rightarrow> bool" where
  "stored_bookmarks (JArr xs) =
     list_all (\<lambda>x. case x of None \<Rightarrow> False | Some b \<Rightarrow> valid_bookmark b \<and> is_json b) xs"
| "stored_bookmarks v = False"

fun distinct_keys :: "jsval \<Rightarrow> bool" where
  "distinct_keys (JObj kvs) = distinct (map fst kvs)"
| "distinct_keys v = False"

definition normal_progress :: "jsval \<Rightarrow> bool" where
  "normal_progress p =
     (distinct_keys p
      \<and> strings_only (prop_of p ''completedChapters'')
      \<and> strings_only (prop_of p ''completedSections'')
      \<and> numbers_only (prop_of p ''timeSpent'')
      \<and> numbers_only (prop_of p ''quizScores'')
      \<and> stored_bookmarks (prop_of p ''bookmarks'')
      \<and> typeof (prop_of p ''notes'') = ''object''
      \<and> is_json (prop_of p ''notes'')
      \<and> prop_of p ''lastActivity'' \<noteq> JUndefined)"

text \<open>Every number in the six fields is finite.\<close>

definition finite_core :: "jsval \<Rightarrow> bool" where
  "finite_core p = list_all finite_value (core_fields p)"

section \<open>Concrete inputs\<close>

definition example_chat_state :: chat_state where
  "example_chat_state =
     \<lparr> isOpen = True, messages = [], inputValue = '' What is ML? '', isTyping = False,
       error = None \<rparr>"

definition example_clock :: turn_clock where
  "example_clock = \<lparr> t_submit = 41, t_request = 42, t_settle = 57 \<rparr>"


definition offline_fetch :: "request \<Rightarrow> fetch_result" where
  "offline_fetch r = Rejected (TypeError ''Failed to fetch'')"

definition overloaded_fetch :: "request \<Rightarrow> fetch_result" where
  "overloaded_fetch r =
     Resolved \<lparr> ok = False, status = 503, json = Inr (JObj [(''detail'', JStr ''upstream timeout'')]) \<rparr>"

text \<open>A body laid out as the design's ChatResponse, with the answer under \<^verbatim>\<open>response_text\<close>.\<close>

definition response_text_body :: jsval where
  "response_text_body =
     JObj [(''response_text'', JStr ''Machine learning is the study of learning from data.''),
           (''citations'', JArr []),
           (''confidence'', JNum (Finite (9 / 10))),
           (''tokens_used'', JNum (Finite 120)),
           (''timestamp'', JStr ''2025-12-21T10:00:00Z'')]"

definition response_text_fetch :: "request \<Rightarrow> fetch_result" where
  "response_text_fetch r = Resolved \<lparr> ok = True, status = 200, json = Inr response_text_body \<rparr>"

text \<open>A body laid out as \<^verbatim>\<open>ChatResponse\<close> of types.ts, with the answer under \<^verbatim>\<open>response\<close>.\<close>

definition response_body :: jsval where
  "response_body =
     JObj [(''response'', JStr ''Machine learning is the study of learning from data.''),
           (''conversation_id'', JStr ''session_42''),
           (''citations'', JArr []),
           (''confidence'', JNum (Finite (9 / 10))),
           (''tokens_used'', JNum (Finite 120)),
           (''timestamp'', JStr ''2025-12-21T10:00:00Z'')]"

definition response_fetch :: "request \<Rightarrow> fetch_result" where
  "response_fetch r = Resolved \<lparr> ok = True, status = 200, json = Inr response_body \<rparr>"

text \<open>The string conversion, on the values whose conversion does not involve a number.\<close>

fun example_String_of :: "jsval \<Rightarrow> string" where
  "example_String_of (JStr s) = s"
| "example_String_of JUndefined = ''undefined''"
| "example_String_of JNull = ''null''"
| "example_String_of (JBool b) = (if b then ''true'' else ''false'')"
| "example_String_of v = ''[object Object]''"

definition example_search_state :: search_state where
  "example_search_state =
     \<lparr> query = ''gradient'', results = [None], isSearching = False, showResults = True,
       selectedIndex = 0 \<rparr>"

definition example_page_state :: page_state where
  "example_page_state = \<lparr> hits = [], loading = False, page_error = Some ''Search plugin error'' \<rparr>"

definition example_chunker :: chunker_config where
  "example_chunker = \<lparr> chunk_budget = 12, section_at = (\<lambda>chapterId i. ''intro'') \<rparr>"

definition example_chunks :: "Chunk list" where
  "example_chunks =
     [\<lparr> chunk_id = ''c1'', chunk_text = ''aaaa'', chunk_chapter = ''ch1'', chunk_section = ''s1'',
        sequence_index = 0 \<rparr>,
      \<lparr> chunk_id = ''c2'', chunk_text = ''bbb'', chunk_chapter = ''ch1'', chunk_section = ''s1'',
        sequence_index = 1 \<rparr>,
      \<lparr> chunk_id = ''c3'', chunk_text = ''cc'', chunk_chapter = ''ch1'', chunk_section = ''s2'',
        sequence_index = 2 \<rparr>,
      \<lparr> chunk_id = ''c4'', chunk_text = ''d'', chunk_chapter = ''ch2'', chunk_section = ''s1'',
        sequence_index = 0 \<rparr>,
      \<lparr> chunk_id = ''c5'', chunk_text = ''eeeee'', chunk_chapter = ''ch2'', chunk_section = ''s1'',
        sequence_index = 1 \<rparr>]"

definition example_found :: "StoreHit list" where
  "example_found =
     map (\<lambda>(i, s). \<lparr> hit_chunk_id = i, score = s, hit_chapter = ''ch'', hit_section = ''s'',
                      hit_excerpt = '''' \<rparr>)
       [(''c1'', 9 / 10), (''c2'', 8 / 10), (''c3'', 7 / 10), (''c4'', 6 / 10), (''c5'', 1 / 10)]"

definition example_assembler :: "nat assembler_config" where
  "example_assembler =
     \<lparr> embed = (\<lambda>q. Inr (length q)),
       search = (\<lambda>v topK. Inr (take topK example_found)),
       lookup_chunk = map_of (map (\<lambda>c. (chunk_id c, c)) example_chunks),
       count_tokens = length,
       min_relevance = 1 / 2 \<rparr>"

definition example_limiter :: limiter_config where
  "example_limiter = \<lparr> window_length = 60, max_requests = 2 \<rparr>"

definition example_requests :: "(nat \<times> string) list" where
  "example_requests = [(3, ''bob''), (10, ''ann''), (59, ''ann''), (59, ''bob'')]"

text \<open>
  A stored item of mixed quality: a chapter id that is a number, times that are not numbers,
  scores kept in an array, bookmarks that are no objects, \<^verbatim>\<open>notes\<close> that is \<^verbatim>\<open>null\<close>, and no
  \<^verbatim>\<open>completedSections\<close>.
\<close>

definition example_stored :: jsval where
  "example_stored =
     JObj [(''completedChapters'', JArr [Some (JStr ''ch1''), Some (JNum (Finite 5))]),
           (''timeSpent'', JObj [(''ch1'', JNum (Finite 120)), (''ch2'', JStr ''long''), (''ch3'', JNull)]),
           (''quizScores'', JArr [Some (JNum (Finite 80)), Some (JStr ''x''), Some (JNum (Finite 3))]),
           (''bookmarks'',
              JArr [Some JNull,
                    Some (JObj [(''id'', JStr ''b1''), (''chapter'', JStr ''ch1''),
                                (''title'', JStr ''Perceptron'')]),
                    Some (JStr ''zz'')]),
           (''notes'', JNull),
           (''lastActivity'', JStr ''yesterday'')]"

definition example_storage :: local_storage where
  "example_storage = \<lparr> item = Some (Serialized example_stored), blocked = False,
                        quota_exceeded = False \<rparr>"

definition corrupt_storage :: local_storage where
  "corrupt_storage = \<lparr> item = Some (Unparsable ''{completedChapters:''), blocked = False,
                        quota_exceeded = False \<rparr>"

definition example_loaded :: jsval where
  "example_loaded =
     JObj [(''completedChapters'', JArr [Some (JStr ''ch1'')]),
           (''timeSpent'', JObj [(''ch1'', JNum (Finite 120))]),
           (''quizScores'', JArr [Some (JNum (Finite 80)), None, Some (JNum (Finite 3))]),
           (''completedSections'', JArr []),
           (''lastActivity'', JStr ''yesterday''),
           (''bookmarks'',
              JArr [Some (JObj [(''id'', JStr ''b1''), (''chapter'', JStr ''ch1''),
                                (''title'', JStr ''Perceptron'')])]),
           (''notes'', JNull),
           (''exportTimestamp'', JUndefined)]"

text \<open>A storage that holds something else, into which a text is imported.\<close>

definition other_storage :: local_storage where
  "other_storage =
     \<lparr> item = Some (Serialized (JObj [(''completedChapters'', JArr [Some (JStr ''ch9'')])])),
       blocked = False, quota_exceeded = False \<rparr>"

text \<open>A stored item whose \<^verbatim>\<open>timeSpent\<close> holds \<^verbatim>\<open>1e400\<close>, which parses to \<^verbatim>\<open>Infinity\<close>.\<close>

definition overflow_storage :: local_storage where
  "overflow_storage =
     \<lparr> item = Some (Serialized
         (JObj [(''completedChapters'', JArr []),
                (''timeSpent'', JObj [(''a'', JNum Infinity), (''b'', JNum (Finite 7))]),
                (''quizScores'', JObj []),
                (''completedSections'', JArr []),
                (''lastActivity'', JNum (Finite 1)),
                (''bookmarks'', JArr []),
                (''notes'', JObj [])])),
       blocked = False, quota_exceeded = False \<rparr>"

text \<open>The stored item \<^verbatim>\<open>{"notes":null,"lastActivity":"yesterday"}\<close>.\<close>

definition malformed_storage :: local_storage where
  "malformed_storage =
     \<lparr> item = Some (Serialized (JObj [(''notes'', JNull), (''lastActivity'', JStr ''yesterday'')])),
       blocked = False, quota_exceeded = False \<rparr>"

text \<open>A stored item as \<^verbatim>\<open>saveProgress\<close> writes it.\<close>

definition saved_item :: jsval where
  "saved_item =
     JObj [(''completedChapters'', JArr [Some (JStr ''ch1''), Some (JStr ''ch2'')]),
           (''timeSpent'', JObj [(''ch1'', JNum (Finite 120)), (''ch2'', JNum (Finite (45 / 2)))]),
           (''quizScores'', JObj [(''quiz1'', JNum (Finite 80))]),
           (''completedSections'', JArr [Some (JStr ''ch1/intro'')]),
           (''lastActivity'', JNum (Finite 1766311200000)),
           (''bookmarks'',
              JArr [Some (JObj [(''id'', JStr ''b1''), (''chapter'', JStr ''ch1''),
                                (''section'', JStr ''intro''), (''title'', JStr ''Perceptron''),
                                (''content'', JStr []), (''timestamp'', JNum (Finite 1766311100000)),
                                (''tags'', JArr []), (''isPublic'', JBool False)])]),
           (''notes'', JObj [(''ch1_1766311000000'', JStr ''revise this'')])]"

definition saved_storage :: local_storage where
  "saved_storage = \<lparr> item = Some (Serialized saved_item), blocked = False,
                      quota_exceeded = False \<rparr>"

section \<open>Properties of the chat client\<close>





lemma trim_example: "trim '' What is ML? '' = ''What is ML?''"
  by (simp add: trim_def is_js_space_def)


text \<open>
  C1. A chat turn whose call of \<^verbatim>\<open>POST /api/chat\<close> fails, by a network error or by a status
  that is not OK, ends with the user's message followed by one bot message whose text is the
  fixed apology and whose error flag is set, and with the fixed banner text; nothing in
  the state after the turn depends on the error that was raised, which only goes
  to the console.
\<close>

theorem failed_chat_turn_appends_apology:
  assumes "trim (inputValue s) \<noteq> []" and "\<not> isTyping s"
    and "call_failed (fetch (chat_request (trim (inputValue s)) (t_request clk)))"
  shows "snd (snd (handleSendMessage fetch clk s)) =
      s \<lparr> messages := messages s @
            [\<lparr> msg_id = toString (t_submit clk), msg_text = JStr (trim (inputValue s)),
               msg_sender = User, msg_timestamp = Date_of_clock (t_submit clk),
               msg_citations = JUndefined, msg_confidence = JUndefined, msg_error = None \<rparr>,
             \<lparr> msg_id = toString (t_settle clk),
               msg_text = JStr ''I apologize, but I'm having trouble connecting right now. Please try again in a moment.'',
               msg_sender = Bot, msg_timestamp = Date_of_clock (t_settle clk),
               msg_citations = JUndefined, msg_confidence = JUndefined, msg_error = Some True \<rparr>],
          inputValue := [], isTyping := False,
          error := Some ''Failed to get response. Please try again.'' \<rparr>"
  using assms
  by (cases "fetch (chat_request (trim (inputValue s)) (t_request clk))")
     (simp_all add: handleSendMessage_def sendChatMessage_def sendChatMessage_try_def
        apology_def Let_def)

theorem failed_chat_turn_appends_apology_witness:
  "trim (inputValue example_chat_state) \<noteq> [] \<and> \<not> isTyping example_chat_state
   \<and> call_failed (offline_fetch (chat_request (trim (inputValue example_chat_state)) (t_request example_clock)))
   \<and> call_failed (overloaded_fetch (chat_request (trim (inputValue example_chat_state)) (t_request example_clock)))
   \<and> map msg_text (messages (snd (snd (handleSendMessage offline_fetch example_clock example_chat_state))))
       = [JStr ''What is ML?'', JStr apology]
   \<and> snd (snd (handleSendMessage overloaded_fetch example_clock example_chat_state))
       = snd (snd (handleSendMessage offline_fetch example_clock example_chat_state))"
  using failed_chat_turn_appends_apology [of example_chat_state offline_fetch example_clock]
        failed_chat_turn_appends_apology [of example_chat_state overloaded_fetch example_clock]
  by (simp add: example_chat_state_def offline_fetch_def overloaded_fetch_def trim_example
        apology_def)

text \<open>
  C2, as stated, fails: for a body that carries its answer under \<^verbatim>\<open>response_text\<close>, with
  citations, confidence, tokens_used and timestamp beside it, the bot message's text is not
  that answer but \<^verbatim>\<open>undefined\<close>.
\<close>

theorem response_text_not_rendered:
  "prop_of response_text_body ''response_text''
     = JStr ''Machine learning is the study of learning from data.''
   \<and> map msg_text (messages (snd (snd
        (handleSendMessage response_text_fetch example_clock example_chat_state))))
     = [JStr ''What is ML?'', JUndefined]"
  by (simp add: handleSendMessage_def sendChatMessage_def sendChatMessage_try_def
        bot_message_def response_text_fetch_def response_text_body_def example_chat_state_def
        trim_example Let_def)

text \<open>
  C2, amended. The client reads the body of a successful response as \<^verbatim>\<open>ChatResponse\<close> of
  types.ts, whose answer is under the key \<^verbatim>\<open>response\<close>: the turn ends with the user's message
  followed by a bot message whose text is the body's \<^verbatim>\<open>response\<close>, whose citations and
  confidence are the body's, and whose time is converted from the body's \<^verbatim>\<open>timestamp\<close>.
\<close>

theorem response_field_rendered:
  assumes "trim (inputValue s) \<noteq> []" and "\<not> isTyping s"
    and "fetch (chat_request (trim (inputValue s)) (t_request clk)) = Resolved r"
    and "ok r" and "json r = Inr data" and "data \<noteq> JNull" and "data \<noteq> JUndefined"
  shows "snd (snd (handleSendMessage fetch clk s)) =
      s \<lparr> messages := messages s @
            [\<lparr> msg_id = toString (t_submit clk), msg_text = JStr (trim (inputValue s)),
               msg_sender = User, msg_timestamp = Date_of_clock (t_submit clk),
               msg_citations = JUndefined, msg_confidence = JUndefined, msg_error = None \<rparr>,
             \<lparr> msg_id = toString (t_settle clk), msg_text = prop_of data ''response'',
               msg_sender = Bot, msg_timestamp = Date_of_value (prop_of data ''timestamp''),
               msg_citations = prop_of data ''citations'',
               msg_confidence = prop_of data ''confidence'', msg_error = None \<rparr>],
          inputValue := [], isTyping := False, error := None \<rparr>"
  using assms
  by (cases data)
     (simp_all add: handleSendMessage_def sendChatMessage_def sendChatMessage_try_def
        bot_message_def Let_def)

theorem response_field_rendered_witness:
  "trim (inputValue example_chat_state) \<noteq> [] \<and> \<not> isTyping example_chat_state
   \<and> response_fetch (chat_request (trim (inputValue example_chat_state)) (t_request example_clock))
       = Resolved \<lparr> ok = True, status = 200, json = Inr response_body \<rparr>
   \<and> response_body \<noteq> JNull \<and> response_body \<noteq> JUndefined
   \<and> map msg_text (messages (snd (snd (handleSendMessage response_fetch example_clock example_chat_state))))
       = [JStr ''What is ML?'', JStr ''Machine learning is the study of learning from data.'']"
  using response_field_rendered [of example_chat_state response_fetch example_clock
          "\<lparr> ok = True, status = 200, json = Inr response_body \<rparr>" response_body]
  by (simp add: example_chat_state_def response_fetch_def response_body_def trim_example)



section \<open>Properties of the search box and the search page\<close>

text \<open>
  C4. For a query that is not only white space, the search box sends one request, a POST to
  \<^verbatim>\<open>/api/chat/search\<close> whose body has exactly the keys \<^verbatim>\<open>message\<close>, holding the query text, and
  \<^verbatim>\<open>context_level\<close>; for an empty or white-space query it sends no request, empties the
  result list and hides it.
\<close>

theorem search_box_request:
  "(if trim searchQuery = []
    then fst (handleSearch String_of fetch searchQuery s) = []
         \<and> snd (snd (handleSearch String_of fetch searchQuery s))
             = s \<lparr> results := [], showResults := False \<rparr>
    else fst (handleSearch String_of fetch searchQuery s) = [search_request searchQuery])
   \<and> url (search_request searchQuery) = ''/api/chat/search''
   \<and> http_method (search_request searchQuery) = ''POST''
   \<and> Object_keys (body (search_request searchQuery)) = Inr [''message'', ''context_level'']
   \<and> prop_of (body (search_request searchQuery)) ''message'' = JStr searchQuery"
  by (auto simp: handleSearch_def search_request_def Let_def
        split: fetch_result.splits sum.splits)

theorem search_box_request_witness:
  "trim ''gradient descent'' \<noteq> [] \<and> trim ''   '' = []
   \<and> fst (handleSearch example_String_of offline_fetch ''gradient descent'' example_search_state)
       = [search_request ''gradient descent'']
   \<and> body (search_request ''gradient descent'')
       = JObj [(''message'', JStr ''gradient descent''), (''context_level'', JStr ''detailed'')]
   \<and> fst (handleSearch example_String_of offline_fetch ''   '' example_search_state) = []
   \<and> results (snd (snd (handleSearch example_String_of offline_fetch ''   '' example_search_state))) = []"
proof -
  have a: "trim ''gradient descent'' \<noteq> []" and b: "trim ''   '' = []"
    by (simp_all add: trim_def is_js_space_def)
  show ?thesis
    using search_box_request [of "''gradient descent''" example_String_of offline_fetch example_search_state]
          search_box_request [of "''   ''" example_String_of offline_fetch example_search_state]
    by (simp add: a b search_request_def)
qed

text \<open>
  C3. On the search page, for a non-empty query and no search plugin global (an undefined
  \<^verbatim>\<open>window\<close>, or a falsy \<^verbatim>\<open>window.__docusaurus_search\<close>), the effect marks the page as
  loading and sets one timer of 300 ms whose callback shows the same three mock hits,
  whatever the query.
\<close>

theorem search_page_mock_fallback:
  assumes "q \<noteq> []" and "plugin_unavailable win"
  shows "search_effect win q s =
           (s \<lparr> loading := True, page_error := None \<rparr>,
            [(300, \<lambda>s'. s' \<lparr> hits := mockHits, loading := False \<rparr>)])
         \<and> map title mockHits = [''Introduction to Machine Learning'',
              ''Linear Regression Tutorial'', ''Linear Algebra Fundamentals'']"
  using assms
  by (auto simp: search_effect_def plugin_unavailable_def mockHits_def split: option.splits)

theorem search_page_mock_fallback_witness:
  "''backprop'' \<noteq> [] \<and> plugin_unavailable (Some \<lparr> docusaurus_search = None \<rparr>)
   \<and> fst (search_effect (Some \<lparr> docusaurus_search = None \<rparr>) ''backprop'' example_page_state)
       = \<lparr> hits = [], loading = True, page_error = None \<rparr>
   \<and> map (\<lambda>(delay, callback). (delay, map objectID (hits (callback example_page_state))))
        (snd (search_effect (Some \<lparr> docusaurus_search = None \<rparr>) ''backprop'' example_page_state))
       = [(300, [''1'', ''2'', ''3''])]"
  using search_page_mock_fallback [of "''backprop''" "Some \<lparr> docusaurus_search = None \<rparr>"
          example_page_state]
  by (simp add: plugin_unavailable_def example_page_state_def mockHits_def)

section \<open>Properties of the context assembler\<close>

lemma accumulate_fits:
  "c \<in> set (accumulate tokens B used cs) \<Longrightarrow> tokens (chunk_text c) \<le> B"
  by (induction cs arbitrary: used) (auto split: if_splits)

text \<open>
  C5. Whatever the query, the token budget and the contents of the vector store, when
  \<^verbatim>\<open>ContextAssembler.assemble\<close> returns chunks it returns at most 3, and none of them has a
  text of more tokens than the budget.
\<close>

theorem assemble_at_most_three_within_budget:
  assumes "assemble cfg q topK tokenBudget = Inr cs"
  shows "length cs \<le> 3 \<and> (\<forall>c \<in> set cs. count_tokens cfg (chunk_text c) \<le> tokenBudget)"
  using assms
  by (auto simp: assemble_def Let_def split: sum.splits dest!: in_set_takeD accumulate_fits)

theorem assemble_at_most_three_within_budget_witness:
  "assemble example_assembler ''what is ml'' 5 100 = Inr (take 3 example_chunks)
   \<and> length (take 3 example_chunks) \<le> 3
   \<and> list_all (\<lambda>c. count_tokens example_assembler (chunk_text c) \<le> 100) (take 3 example_chunks)"
proof -
  have "assemble example_assembler ''what is ml'' 5 100 = Inr (take 3 example_chunks)"
    by (simp add: assemble_def example_assembler_def example_found_def example_chunks_def
          List.map_filter_def Let_def)
  from assemble_at_most_three_within_budget [OF this] this show ?thesis
    by (simp add: list_all_iff)
qed

section \<open>Properties of the chunker\<close>

lemma cut_point_pos: "0 < budget \<Longrightarrow> 0 < cut_point budget ctext"
  by (simp add: cut_point_def Let_def)

lemma last_boundary_le: "last_boundary P w \<le> length w"
  unfolding last_boundary_def
  by (metis length_dropWhile_le length_rev)

lemma cut_point_le: "cut_point budget ctext \<le> budget"
  using last_boundary_le [of is_sentence_end "take budget ctext"]
        last_boundary_le [of is_js_space "take budget ctext"]
  by (auto simp: cut_point_def Let_def)

lemma chunk_texts_concat: "0 < budget \<Longrightarrow> concat (chunk_texts budget ctext) = ctext"
proof (induction budget ctext rule: chunk_texts.induct)
  case (1 budget ctext)
  show ?case
  proof (cases "ctext = [] \<or> length ctext \<le> budget")
    case True
    then show ?thesis by (subst chunk_texts.simps) auto
  next
    case False
    with 1 have "concat (chunk_texts budget (drop (cut_point budget ctext) ctext)) = drop (cut_point budget ctext) ctext"
      by simp
    with False 1(2) show ?thesis by (subst chunk_texts.simps) simp
  qed
qed

lemma chunk_texts_bounded: "t \<in> set (chunk_texts budget ctext) \<Longrightarrow> length t \<le> budget \<and> t \<noteq> []"
proof (induction budget ctext rule: chunk_texts.induct)
  case (1 budget ctext)
  show ?case
  proof (cases "ctext = [] \<or> budget = 0")
    case True
    with 1(2) show ?thesis by (subst (asm) chunk_texts.simps) simp
  next
    case nz: False
    show ?thesis
    proof (cases "length ctext \<le> budget")
      case True
      with nz 1(2) show ?thesis by (subst (asm) chunk_texts.simps) simp
    next
      case False
      from nz False 1(2) consider "t = take (cut_point budget ctext) ctext"
        | "t \<in> set (chunk_texts budget (drop (cut_point budget ctext) ctext))"
        by (subst (asm) chunk_texts.simps) auto
      then show ?thesis
      proof cases
        case 1
        with cut_point_le [of budget ctext] cut_point_pos [of budget ctext] nz show ?thesis by auto
      next
        case 2
        with "1.IH" nz False show ?thesis by simp
      qed
    qed
  qed
qed

lemma map_chunk_text: "map chunk_text (chunk cfg ctext cid) = chunk_texts (chunk_budget cfg) ctext"
  by (simp add: chunk_def comp_def case_prod_unfold map_snd_enumerate)

text \<open>
  C7. With a positive character budget, for every chapter text each chunk of
  \<^verbatim>\<open>Chunker.chunk\<close> has at most that many characters, and the chunks' texts, concatenated in
  order, are the chapter text: nothing is lost and nothing is repeated.
\<close>

theorem chunks_bounded_and_lossless:
  assumes "0 < chunk_budget cfg"
  shows "(\<forall>c \<in> set (chunk cfg chapterText chapterId). length (chunk_text c) \<le> chunk_budget cfg)
         \<and> concat (map chunk_text (chunk cfg chapterText chapterId)) = chapterText"
proof -
  have "length (chunk_text c) \<le> chunk_budget cfg"
    if "c \<in> set (chunk cfg chapterText chapterId)" for c
  proof -
    from that have "chunk_text c \<in> set (map chunk_text (chunk cfg chapterText chapterId))"
      by simp
    then show ?thesis
      using chunk_texts_bounded by (simp only: map_chunk_text)
  qed
  then show ?thesis
    using assms by (simp add: map_chunk_text chunk_texts_concat)
qed

theorem chunks_bounded_and_lossless_witness:
  "0 < chunk_budget example_chunker
   \<and> list_all (\<lambda>c. length (chunk_text c) \<le> chunk_budget example_chunker)
         (chunk example_chunker ''Hello there. How are you?'' ''ch1'')
   \<and> concat (map chunk_text (chunk example_chunker ''Hello there. How are you?'' ''ch1''))
       = ''Hello there. How are you?''
   \<and> chunk_texts 12 ''Hello there. How are you?'' = [''Hello there.'', '' How are '', ''you?'']"
proof -
  have a: "0 < chunk_budget example_chunker" by (simp add: example_chunker_def)
  have b: "chunk_texts 12 ''Hello there. How are you?'' = [''Hello there.'', '' How are '', ''you?'']"
    by code_simp
  from chunks_bounded_and_lossless [OF a, of "''Hello there. How are you?''" "''ch1''"] a b
  show ?thesis by (simp add: list_all_iff)
qed

section \<open>Properties of the rate limiter\<close>

lemma admit_other_key:
  "k' \<noteq> k \<Longrightarrow> snd (admit cfg t k' store) k = store k"
  by (simp add: admit_def Let_def)

lemma admit_live_window:
  assumes "store k = Some w" "t < window_start w + window_length cfg"
  shows "admit cfg t k store = (count w < max_requests cfg, store (k \<mapsto> w \<lparr> count := count w + 1 \<rparr>))"
  using assms by (auto simp: admit_def current_window_def Let_def)

lemma admit_no_window:
  assumes "no_live_window cfg t k store"
  shows "admit cfg t k store =
    (0 < max_requests cfg, store (k \<mapsto> \<lparr> client_key = k, window_start = t, count = 1 \<rparr>))"
  using assms by (auto simp: admit_def current_window_def no_live_window_def Let_def split: option.splits)

lemma decisions_for_Cons:
  "decisions_for k (r # rs) (d # ds) =
     (if snd r = k then d # decisions_for k rs ds else decisions_for k rs ds)"
  by (simp add: decisions_for_def)

lemma decisions_in_window:
  assumes "store k = Some w"
    and "\<forall>r \<in> set rs. snd r = k \<longrightarrow> fst r < window_start w + window_length cfg"
  shows "decisions_for k rs (admit_all cfg rs store) =
           map (\<lambda>i. count w + i < max_requests cfg) [0..<length (filter (\<lambda>r. snd r = k) rs)]"
  using assms
proof (induction rs arbitrary: store w)
  case Nil
  then show ?case by (simp add: decisions_for_def)
next
  case (Cons r rs)
  obtain t k' where r: "r = (t, k')" by (cases r)
  show ?case
  proof (cases "k' = k")
    case True
    from Cons.prems r True have live: "t < window_start w + window_length cfg" by simp
    let ?w = "w \<lparr> count := count w + 1 \<rparr>"
    have step: "admit cfg t k store = (count w < max_requests cfg, store (k \<mapsto> ?w))"
      using Cons.prems(1) live by (rule admit_live_window)
    have "decisions_for k rs (admit_all cfg rs (store (k \<mapsto> ?w))) =
            map (\<lambda>i. count ?w + i < max_requests cfg) [0..<length (filter (\<lambda>r. snd r = k) rs)]"
      using Cons.prems(2) by (intro Cons.IH) auto
    with step r True show ?thesis
      by (simp add: decisions_for_Cons map_upt_Suc del: upt_Suc)
  next
    case False
    have "snd (admit cfg t k' store) k = Some w"
      using admit_other_key [OF False] Cons.prems(1) by simp
    then have "decisions_for k rs (admit_all cfg rs (snd (admit cfg t k' store))) =
            map (\<lambda>i. count w + i < max_requests cfg) [0..<length (filter (\<lambda>r. snd r = k) rs)]"
      using Cons.prems(2) by (intro Cons.IH) auto
    with r False show ?thesis
      by (simp add: decisions_for_Cons)
  qed
qed

text \<open>
  C6. With request limit N, let a client's request open a window (the client has no
  window, or its window has expired), and let every later request of that client arrive
  within the window; requests of other clients may come in between. Then the client's
  requests are allowed exactly while fewer than N have been counted: the first N are
  allowed, and the one after them, like all later ones, is denied.
\<close>

theorem admit_allows_exactly_limit:
  assumes "no_live_window cfg t0 k store"
    and "\<forall>r \<in> set rs. snd r = k \<longrightarrow> t0 \<le> fst r \<and> fst r < t0 + window_length cfg"
  shows "decisions_for k ((t0, k) # rs) (admit_all cfg ((t0, k) # rs) store) =
           map (\<lambda>i. i < max_requests cfg) [0..<Suc (length (filter (\<lambda>r. snd r = k) rs))]"
proof -
  let ?w = "\<lparr> client_key = k, window_start = t0, count = 1 \<rparr>"
  have step: "admit cfg t0 k store = (0 < max_requests cfg, store (k \<mapsto> ?w))"
    using assms(1) by (rule admit_no_window)
  have "decisions_for k rs (admit_all cfg rs (store (k \<mapsto> ?w))) =
          map (\<lambda>i. count ?w + i < max_requests cfg) [0..<length (filter (\<lambda>r. snd r = k) rs)]"
    using assms(2) by (intro decisions_in_window) auto
  with step show ?thesis
    by (simp add: decisions_for_Cons map_upt_Suc del: upt_Suc)
qed

theorem admit_allows_exactly_limit_witness:
  "no_live_window example_limiter 0 ''ann'' Map.empty
   \<and> list_all (\<lambda>r. fst r < 0 + window_length example_limiter) example_requests
   \<and> decisions_for ''ann'' ((0, ''ann'') # example_requests)
         (admit_all example_limiter ((0, ''ann'') # example_requests) Map.empty)
       = [True, True, False]"
proof -
  have a: "no_live_window example_limiter 0 ''ann'' Map.empty"
    by (simp add: no_live_window_def)
  have b: "\<forall>r \<in> set example_requests.
         snd r = ''ann'' \<longrightarrow> 0 \<le> fst r \<and> fst r < 0 + window_length example_limiter"
    by (simp add: example_requests_def example_limiter_def)
  have c: "map (\<lambda>i. i < max_requests example_limiter)
             [0..<Suc (length (filter (\<lambda>r. snd r = ''ann'') example_requests))]
           = [True, True, False]"
    by (simp add: example_requests_def example_limiter_def upt_rec)
  have d: "list_all (\<lambda>r. fst r < 0 + window_length example_limiter) example_requests"
    by (simp add: example_requests_def example_limiter_def)
  from admit_allows_exactly_limit [OF a b] a c d show ?thesis by simp
qed



section \<open>Properties of progress tracking\<close>

subsection \<open>Objects\<close>

lemma map_of_overwrite:
  "map_of (map (\<lambda>(k', v'). if k' = k then (k', v) else (k', v')) kvs) k'' =
     (if k'' = k then (if k \<in> fst ` set kvs then Some v else None) else map_of kvs k'')"
proof (induction kvs)
  case Nil
  show ?case by simp
next
  case (Cons x kvs)
  obtain a b where x: "x = (a, b)" by (cases x)
  show ?case
    unfolding x using Cons.IH by (cases "a = k"; cases "k'' = k") auto
qed

lemma map_of_set_key:
  "map_of (set_key k v kvs) k' = (if k' = k then Some v else map_of kvs k')"
proof (cases "k \<in> set (map fst kvs)")
  case True
  then show ?thesis
    by (simp add: set_key_def map_of_overwrite)
next
  case False
  then have "map_of kvs k = None" by (simp add: map_of_eq_None_iff)
  with False show ?thesis
    by (auto simp: set_key_def map_add_def split: option.splits)
qed

lemma map_fst_overwrite:
  "map fst (map (\<lambda>(k', v'). if k' = k then (k', v) else (k', v')) kvs) = map fst kvs"
  by (induction kvs) auto

lemma map_fst_set_key_present:
  "k \<in> set (map fst kvs) \<Longrightarrow> map fst (set_key k v kvs) = map fst kvs"
  by (simp only: set_key_def map_fst_overwrite if_True)

lemma distinct_set_key:
  "distinct (map fst kvs) \<Longrightarrow> distinct (map fst (set_key k v kvs))"
proof (cases "k \<in> set (map fst kvs)")
  case True
  assume "distinct (map fst kvs)"
  with True show ?thesis by (simp only: map_fst_set_key_present)
next
  case False
  assume "distinct (map fst kvs)"
  with False show ?thesis by (simp add: set_key_def)
qed

lemma distinct_assign:
  "distinct (map fst a) \<Longrightarrow> distinct (map fst (assign a b))"
  unfolding assign_def
  by (induction b arbitrary: a) (auto simp: distinct_set_key)

lemma map_of_assign_one:
  "map_of (assign a [(k, v)]) k' = (if k' = k then Some v else map_of a k')"
  by (simp add: assign_def map_of_set_key)

lemma map_of_assign_Cons:
  "map_of (assign a ((k, v) # b)) k' = map_of (assign (set_key k v a) b) k'"
  by (simp add: assign_def)

lemma map_of_assign_notin:
  "k' \<notin> set (map fst b) \<Longrightarrow> map_of (assign a b) k' = map_of a k'"
  unfolding assign_def
  by (induction b arbitrary: a) (auto simp: map_of_set_key)

lemma map_of_assign_in:
  "distinct (map fst b) \<Longrightarrow> k' \<in> set (map fst b) \<Longrightarrow> map_of (assign a b) k' = map_of b k'"
  unfolding assign_def
proof (induction b arbitrary: a)
  case Nil
  then show ?case by simp
next
  case (Cons x b)
  obtain k v where x: "x = (k, v)" by (cases x)
  show ?case
  proof (cases "k' = k")
    case True
    with Cons.prems x have "k' \<notin> set (map fst b)" by auto
    then have "map_of (assign (set_key k v a) b) k' = map_of (set_key k v a) k'"
      by (rule map_of_assign_notin)
    with True x show ?thesis by (simp add: assign_def map_of_set_key)
  next
    case False
    with Cons x show ?thesis by auto
  qed
qed

lemma map_of_filter_keys:
  "map_of (filter (\<lambda>(k, v). k \<notin> S) kvs) k' = (if k' \<in> S then None else map_of kvs k')"
  by (induction kvs) auto

lemma map_of_to_json:
  "distinct (map fst kvs) \<Longrightarrow>
   map_of (map (\<lambda>(k, v). (k, to_json v)) (filter (\<lambda>(k, v). v \<noteq> JUndefined) kvs)) k' =
     (case map_of kvs k' of
        None \<Rightarrow> None
      | Some v \<Rightarrow> if v = JUndefined then None else Some (to_json v))"
proof (induction kvs)
  case Nil
  then show ?case by simp
next
  case (Cons x kvs)
  obtain k v where x: "x = (k, v)" by (cases x)
  from Cons.prems x have notin: "k \<notin> fst ` set kvs" by simp
  then have none: "map_of kvs k = None" by (simp add: map_of_eq_None_iff)
  from Cons x none show ?case by auto
qed

lemma prop_of_to_json:
  "distinct (map fst kvs) \<Longrightarrow>
   prop_of (to_json (JObj kvs)) k =
     (if prop_of (JObj kvs) k = JUndefined then JUndefined else to_json (prop_of (JObj kvs) k))"
  by (simp add: map_of_to_json split: option.splits)

subsection \<open>Values that JSON text holds\<close>

lemma is_json_defined: "is_json v \<Longrightarrow> v \<noteq> JUndefined"
  by auto

lemma to_json_finite: "is_json v \<Longrightarrow> finite_value v \<Longrightarrow> to_json v = v"
proof (induction v rule: to_json.induct)
  case (1 kvs)
  from "1.prems" have all: "\<forall>(k, v) \<in> set kvs. is_json v \<and> finite_value v"
    by (auto simp: list_all_iff)
  then have keep: "filter (\<lambda>(k, v). v \<noteq> JUndefined) kvs = kvs"
    by (auto intro!: filter_True dest: is_json_defined)
  have "map (\<lambda>(k, v). (k, to_json v)) kvs = kvs"
  proof (rule map_idI)
    fix x assume x: "x \<in> set kvs"
    obtain k v where kv: "x = (k, v)" by (cases x)
    with x all have j: "is_json v" and f: "finite_value v" by auto
    from j have "v \<noteq> JUndefined" by (rule is_json_defined)
    with j f have "to_json v = v" using "1.IH" x kv by auto
    with kv show "(case x of (k, v) \<Rightarrow> (k, to_json v)) = x" by simp
  qed
  with keep show ?case by simp
next
  case (2 xs)
  from "2.prems" have all: "\<forall>x \<in> set xs. \<exists>v. x = Some v \<and> is_json v \<and> finite_value v"
  proof (intro ballI)
    fix x assume x: "x \<in> set xs"
    with "2.prems" show "\<exists>v. x = Some v \<and> is_json v \<and> finite_value v"
      by (cases x) (auto simp: list_all_iff)
  qed
  have "map (\<lambda>x. case x of None \<Rightarrow> Some JNull
                 | Some v \<Rightarrow> if v = JUndefined then Some JNull else Some (to_json v)) xs = xs"
  proof (rule map_idI)
    fix x assume x: "x \<in> set xs"
    with all obtain v where v: "x = Some v" "is_json v" "finite_value v" by blast
    from v(2) have nu: "v \<noteq> JUndefined" by (rule is_json_defined)
    with "2.IH" x v have "to_json v = v" by auto
    with v nu show "(case x of None \<Rightarrow> Some JNull
                 | Some v \<Rightarrow> if v = JUndefined then Some JNull else Some (to_json v)) = x"
      by simp
  qed
  then show ?case by simp
qed simp_all

lemma finite_value_prop_of: "finite_value v \<Longrightarrow> finite_value (prop_of v k)"
proof (cases v)
  case (JObj kvs)
  assume "finite_value v"
  with JObj have all: "\<forall>(k, v) \<in> set kvs. finite_value v" by (simp add: list_all_iff)
  show ?thesis
  proof (cases "map_of kvs k")
    case None
    with JObj show ?thesis by simp
  next
    case (Some w)
    then have "(k, w) \<in> set kvs" by (rule map_of_SomeD)
    with all have "finite_value w" by auto
    with JObj Some show ?thesis by simp
  qed
qed simp_all

lemma is_json_prop_of:
  "is_json v \<Longrightarrow> prop_of v k = JUndefined \<or> is_json (prop_of v k)"
proof (cases v)
  case (JObj kvs)
  assume "is_json v"
  with JObj have all: "\<forall>(k, v) \<in> set kvs. is_json v" by (simp add: list_all_iff)
  show ?thesis
  proof (cases "map_of kvs k")
    case None
    with JObj show ?thesis by simp
  next
    case (Some w)
    then have "(k, w) \<in> set kvs" by (rule map_of_SomeD)
    with all have "is_json w" by auto
    with JObj Some show ?thesis by simp
  qed
qed simp_all


subsection \<open>The validated fields\<close>

lemma typeof_string: "typeof v = ''string'' \<Longrightarrow> \<exists>s. v = JStr s"
  by (cases v) simp_all

lemma typeof_number: "typeof v = ''number'' \<Longrightarrow> \<exists>n. v = JNum n"
  by (cases v) simp_all

lemma list_all_SomeD:
  "list_all (\<lambda>x. case x of None \<Rightarrow> False | Some v \<Rightarrow> P v) xs \<Longrightarrow> x \<in> set xs
     \<Longrightarrow> \<exists>v. x = Some v \<and> P v"
  by (cases x) (auto simp: list_all_iff)

lemma finite_number:
  "typeof v = ''number'' \<Longrightarrow> finite_value v \<Longrightarrow> \<exists>r. v = JNum (Finite r)"
proof -
  assume "typeof v = ''number''"
  then obtain n where v: "v = JNum n" using typeof_number by blast
  assume "finite_value v"
  with v show ?thesis by (cases n) simp_all
qed

lemma strings_only_filter:
  "strings_only (array_filter (\<lambda>ch. typeof ch = ''string'') (if isArray d then d else JArr []))"
  by (cases d) (auto simp: array_filter_def list_all_iff split: option.splits)

lemma strings_only_fixed:
  assumes "strings_only a"
  shows "isArray a" and "array_filter (\<lambda>ch. typeof ch = ''string'') a = a"
    and "to_json a = a" and "a \<noteq> JUndefined"
proof -
  from assms obtain xs where a: "a = JArr xs" by (cases a) simp_all
  have all: "\<forall>x \<in> set xs. \<exists>s. x = Some (JStr s)"
  proof
    fix x assume "x \<in> set xs"
    with assms a obtain v where "x = Some v" "typeof v = ''string''"
      using list_all_SomeD [of "\<lambda>v. typeof v = ''string''" xs x] by auto
    then show "\<exists>s. x = Some (JStr s)" using typeof_string by blast
  qed
  show "isArray a" "a \<noteq> JUndefined" using a by simp_all
  have "filter (\<lambda>x. case x of None \<Rightarrow> False | Some e \<Rightarrow> typeof e = ''string'') xs = xs"
    using all by (intro filter_True) auto
  then show "array_filter (\<lambda>ch. typeof ch = ''string'') a = a"
    using a by (simp add: array_filter_def)
  have "map (\<lambda>x. case x of None \<Rightarrow> Some JNull
                 | Some v \<Rightarrow> if v = JUndefined then Some JNull else Some (to_json v)) xs = xs"
    using all by (intro map_idI) auto
  then show "to_json a = a" using a by simp
qed

lemma delete_key_absent: "k \<notin> fst ` set kvs \<Longrightarrow> delete_key k kvs = kvs"
  unfolding delete_key_def by (intro filter_True) force

lemma delete_step_filter:
  assumes "distinct (map fst obj)"
  shows "(if typeof (prop_of (JObj obj) key) \<noteq> ''number'' then delete_key key obj else obj)
         = filter (\<lambda>(k, v). k \<noteq> key \<or> typeof v = ''number'') obj"
proof (cases "map_of obj key")
  case None
  then have "key \<notin> fst ` set obj" by (simp add: map_of_eq_None_iff)
  then have "filter (\<lambda>(k, v). k \<noteq> key \<or> typeof v = ''number'') obj = obj"
    by (intro filter_True) force
  with None \<open>key \<notin> fst ` set obj\<close> show ?thesis
    by (simp add: delete_key_absent)
next
  case (Some w)
  have uniq: "v = w" if "(key, v) \<in> set obj" for v
    using that assms Some by (simp add: map_of_is_SomeI)
  show ?thesis
  proof (cases "typeof w = ''number''")
    case True
    have "filter (\<lambda>(k, v). k \<noteq> key \<or> typeof v = ''number'') obj = obj"
      using uniq True by (intro filter_True) auto
    with Some True show ?thesis by simp
  next
    case False
    have "filter (\<lambda>(k, v). k \<noteq> key \<or> typeof v = ''number'') obj
          = filter (\<lambda>(k, v). k \<noteq> key) obj"
      using uniq False by (intro filter_cong) auto
    with Some False show ?thesis by (simp add: delete_key_def)
  qed
qed

lemma delete_loop_filter:
  "distinct (map fst obj) \<Longrightarrow>
   fold (\<lambda>key obj. if typeof (prop_of (JObj obj) key) \<noteq> ''number''
                     then delete_key key obj else obj) ks obj
   = filter (\<lambda>(k, v). k \<notin> set ks \<or> typeof v = ''number'') obj"
proof (induction ks arbitrary: obj)
  case Nil
  then show ?case by simp
next
  case (Cons key ks)
  let ?obj' = "filter (\<lambda>(k, v). k \<noteq> key \<or> typeof v = ''number'') obj"
  have d: "distinct (map fst ?obj')"
    using Cons.prems by (rule distinct_map_filter)
  have "fold (\<lambda>key obj. if typeof (prop_of (JObj obj) key) \<noteq> ''number''
                     then delete_key key obj else obj) (key # ks) obj
        = fold (\<lambda>key obj. if typeof (prop_of (JObj obj) key) \<noteq> ''number''
                     then delete_key key obj else obj) ks ?obj'"
    using delete_step_filter [OF Cons.prems, of key] by simp
  also have "\<dots> = filter (\<lambda>(k, v). k \<notin> set ks \<or> typeof v = ''number'') ?obj'"
    using d by (rule Cons.IH)
  also have "\<dots> = filter (\<lambda>(k, v). k \<notin> set (key # ks) \<or> typeof v = ''number'') obj"
    by (auto intro: filter_cong)
  finally show ?case .
qed

lemma delete_non_numbers_object:
  assumes "distinct (map fst kvs)"
  shows "delete_non_numbers (JObj kvs) = Inr (JObj (filter (\<lambda>(k, v). typeof v = ''number'') kvs))"
proof -
  have "filter (\<lambda>(k, v). k \<notin> set (map fst kvs) \<or> typeof v = ''number'') kvs
        = filter (\<lambda>(k, v). typeof v = ''number'') kvs"
    by (intro filter_cong) force+
  with delete_loop_filter [OF assms, of "map fst kvs"] show ?thesis by simp
qed

lemma numbers_only_deleted:
  assumes "delete_non_numbers d = Inr r" and "typeof d = ''object''"
    and "d = JUndefined \<or> is_json d"
  shows "numbers_only r"
proof (cases d)
  case (JObj kvs)
  with assms(3) have "distinct (map fst kvs)" by simp
  from delete_non_numbers_object [OF this] assms(1) JObj show ?thesis
    by (auto simp: list_all_iff)
next
  case (JArr xs)
  with assms(1) show ?thesis
    by (auto simp: list_all_iff split: option.splits)
qed (use assms in auto)

lemma numbers_only_fixed:
  assumes "numbers_only b" and "finite_value b"
  shows "typeof b = ''object''" and "typeof (to_json b) = ''object''"
    and "delete_non_numbers b = Inr b" and "delete_non_numbers (to_json b) = Inr b"
    and "b \<noteq> JUndefined" and "to_json b \<noteq> JUndefined"
proof -
  consider kvs where "b = JObj kvs" | xs where "b = JArr xs"
    using assms by (cases b) simp_all
  then have "typeof b = ''object'' \<and> typeof (to_json b) = ''object''
      \<and> delete_non_numbers b = Inr b \<and> delete_non_numbers (to_json b) = Inr b
      \<and> b \<noteq> JUndefined \<and> to_json b \<noteq> JUndefined"
  proof cases
    case 1
    have all: "\<forall>(k, v) \<in> set kvs. \<exists>r. v = JNum (Finite r)"
    proof (clarify)
      fix k v assume "(k, v) \<in> set kvs"
      with assms 1 have "typeof v = ''number''" "finite_value v" by (auto simp: list_all_iff)
      then show "\<exists>r. v = JNum (Finite r)" by (rule finite_number)
    qed
    have keep: "filter (\<lambda>(k, v). v \<noteq> JUndefined) kvs = kvs"
      using all by (intro filter_True) auto
    have "map (\<lambda>(k, v). (k, to_json v)) kvs = kvs"
      using all by (intro map_idI) auto
    with keep have tj: "to_json b = b" using 1 by simp
    have step: "(if typeof (prop_of (JObj kvs) key) \<noteq> ''number''
                 then delete_key key kvs else kvs) = kvs" for key
    proof (cases "map_of kvs key")
      case None
      then have "key \<notin> fst ` set kvs" by (simp add: map_of_eq_None_iff)
      then show ?thesis by (simp add: delete_key_absent)
    next
      case (Some w)
      then have "(key, w) \<in> set kvs" by (rule map_of_SomeD)
      with all have "typeof w = ''number''" by auto
      with Some show ?thesis by simp
    qed
    have "fold (\<lambda>key obj. if typeof (prop_of (JObj obj) key) \<noteq> ''number''
                     then delete_key key obj else obj) ks kvs = kvs" for ks
      by (induction ks) (simp_all add: step del: prop_of.simps)
    then have "delete_non_numbers b = Inr b" using 1 by simp
    with tj 1 show ?thesis by simp
  next
    case 2
    have all: "\<forall>x \<in> set xs. x = None \<or> (\<exists>r. x = Some (JNum (Finite r)))"
    proof
      fix x assume x: "x \<in> set xs"
      show "x = None \<or> (\<exists>r. x = Some (JNum (Finite r)))"
      proof (cases x)
        case None
        then show ?thesis by simp
      next
        case (Some v)
        with assms 2 x have "typeof v = ''number''" "finite_value v" by (auto simp: list_all_iff)
        then have "\<exists>r. v = JNum (Finite r)" by (rule finite_number)
        with Some show ?thesis by blast
      qed
    qed
    have a: "map (\<lambda>x. case x of None \<Rightarrow> None
                | Some v \<Rightarrow> if typeof v \<noteq> ''number'' then None else Some v) xs = xs"
      using all by (intro map_idI) auto
    have b: "map ((\<lambda>x. case x of None \<Rightarrow> None
                | Some v \<Rightarrow> if typeof v \<noteq> ''number'' then None else Some v)
              \<circ> (\<lambda>x. case x of None \<Rightarrow> Some JNull
                 | Some v \<Rightarrow> if v = JUndefined then Some JNull else Some (to_json v))) xs = xs"
      using all by (intro map_idI) auto
    from a b 2 show ?thesis by simp
  qed
  then show "typeof b = ''object''" "typeof (to_json b) = ''object''"
    "delete_non_numbers b = Inr b" "delete_non_numbers (to_json b) = Inr b"
    "b \<noteq> JUndefined" "to_json b \<noteq> JUndefined"
    by simp_all
qed

lemma stored_bookmarks_filter:
  assumes "d = JUndefined \<or> is_json d"
  shows "stored_bookmarks (array_filter valid_bookmark (if isArray d then d else JArr []))"
proof (cases d)
  case (JArr xs)
  with assms have "\<forall>x \<in> set xs. case x of None \<Rightarrow> False | Some v \<Rightarrow> is_json v"
    by (simp add: list_all_iff)
  with JArr show ?thesis
    by (auto simp: array_filter_def list_all_iff split: option.splits)
qed (simp_all add: array_filter_def)

lemma stored_bookmarks_fixed:
  assumes "stored_bookmarks g"
  shows "isArray g" and "array_filter valid_bookmark g = g" and "is_json g"
    and "g \<noteq> JUndefined" and "bookmarks_only g"
proof -
  from assms obtain xs where g: "g = JArr xs" by (cases g) simp_all
  have all: "\<forall>x \<in> set xs. \<exists>b. x = Some b \<and> valid_bookmark b \<and> is_json b"
  proof
    fix x assume "x \<in> set xs"
    with assms g show "\<exists>b. x = Some b \<and> valid_bookmark b \<and> is_json b"
      using list_all_SomeD [of "\<lambda>b. valid_bookmark b \<and> is_json b" xs x] by auto
  qed
  show "isArray g" "g \<noteq> JUndefined" using g by simp_all
  have "filter (\<lambda>x. case x of None \<Rightarrow> False | Some e \<Rightarrow> valid_bookmark e) xs = xs"
    using all by (intro filter_True) auto
  then show "array_filter valid_bookmark g = g"
    using g by (simp add: array_filter_def)
  show "is_json g" using g all by (auto simp: list_all_iff)
  show "bookmarks_only g"
    using g all by (auto simp: list_all_iff valid_bookmark_def)
qed

lemma notes_normal:
  assumes "d = JUndefined \<or> is_json d"
  shows "typeof (if typeof d = ''object'' then d else JObj []) = ''object''"
    and "is_json (if typeof d = ''object'' then d else JObj [])"
  using assms by auto

lemma finite_array_filter:
  "finite_value d \<Longrightarrow> finite_value (array_filter P (if isArray d then d else JArr []))"
  by (cases d) (auto simp: array_filter_def list_all_iff)

lemma finite_deleted:
  assumes "delete_non_numbers d = Inr r" and "finite_value d" and "d = JUndefined \<or> is_json d"
  shows "finite_value r"
proof (cases d)
  case (JObj kvs)
  with assms(3) have "distinct (map fst kvs)" by simp
  from delete_non_numbers_object [OF this] assms(1,2) JObj show ?thesis
    by (auto simp: list_all_iff)
next
  case (JArr xs)
  with assms(1,2) show ?thesis
    by (auto simp: list_all_iff split: option.splits)
qed (use assms in auto)

lemma finite_object_or_empty:
  "finite_value d \<Longrightarrow> finite_value (if typeof d = ''object'' then d else JObj [])"
  by simp


subsection \<open>Validation and loading\<close>

lemma validate_not_object:
  "\<not> truthy data \<or> typeof data \<noteq> ''object'' \<Longrightarrow> validateProgressData dflt now data = Inr dflt"
  by (simp add: validateProgressData_def)

lemma validate_object:
  assumes "truthy data" and "typeof data = ''object''"
    and "delete_non_numbers (if typeof (prop_of data ''timeSpent'') = ''object''
                             then prop_of data ''timeSpent'' else JObj []) = Inr ts"
    and "delete_non_numbers (if typeof (prop_of data ''quizScores'') = ''object''
                             then prop_of data ''quizScores'' else JObj []) = Inr qs"
  shows "validateProgressData dflt now data =
     Inr (JObj [(''completedChapters'',
                   array_filter (\<lambda>ch. typeof ch = ''string'')
                     (if isArray (prop_of data ''completedChapters'')
                      then prop_of data ''completedChapters'' else JArr [])),
                (''timeSpent'', ts),
                (''quizScores'', qs),
                (''completedSections'',
                   array_filter (\<lambda>sec. typeof sec = ''string'')
                     (if isArray (prop_of data ''completedSections'')
                      then prop_of data ''completedSections'' else JArr [])),
                (''lastActivity'',
                   if typeof (prop_of data ''lastActivity'') = ''number''
                   then prop_of data ''lastActivity'' else JNum (Finite now)),
                (''exportTimestamp'', js_or (prop_of data ''exportTimestamp'') JUndefined),
                (''bookmarks'',
                   array_filter valid_bookmark
                     (if isArray (prop_of data ''bookmarks'') then prop_of data ''bookmarks''
                      else JArr [])),
                (''notes'',
                   if typeof (prop_of data ''notes'') = ''object'' then prop_of data ''notes''
                   else JObj [])])"
  using assms by (simp add: validateProgressData_def Let_def)

lemma validate_raises:
  assumes "validateProgressData dflt now data = Inr V"
    and "truthy data" and "typeof data = ''object''"
  obtains ts qs where
    "delete_non_numbers (if typeof (prop_of data ''timeSpent'') = ''object''
                         then prop_of data ''timeSpent'' else JObj []) = Inr ts"
    "delete_non_numbers (if typeof (prop_of data ''quizScores'') = ''object''
                         then prop_of data ''quizScores'' else JObj []) = Inr qs"
proof -
  let ?TS = "delete_non_numbers (if typeof (prop_of data ''timeSpent'') = ''object''
                         then prop_of data ''timeSpent'' else JObj [])"
  let ?QS = "delete_non_numbers (if typeof (prop_of data ''quizScores'') = ''object''
                         then prop_of data ''quizScores'' else JObj [])"
  from assms have "\<exists>ts. ?TS = Inr ts"
    by (cases ?TS) (simp_all add: validateProgressData_def Let_def)
  moreover from assms have "\<exists>qs. ?QS = Inr qs"
    by (cases ?TS; cases ?QS) (simp_all add: validateProgressData_def Let_def)
  ultimately show thesis using that by blast
qed

lemma normal_default: "normal_progress (defaultProgress loaded)"
  by (simp add: normal_progress_def defaultProgress_def)

lemma validate_normal:
  assumes "is_json data" and "validateProgressData (defaultProgress loaded) now data = Inr V"
  shows "normal_progress V"
proof (cases "truthy data \<and> typeof data = ''object''")
  case False
  with assms(2) have "V = defaultProgress loaded"
    by (simp add: validateProgressData_def)
  then show ?thesis by (simp add: normal_default)
next
  case True
  then have t: "truthy data" and o: "typeof data = ''object''" by simp_all
  have field: "prop_of data k = JUndefined \<or> is_json (prop_of data k)" for k
    using assms(1) by (rule is_json_prop_of)
  let ?tsd = "if typeof (prop_of data ''timeSpent'') = ''object''
              then prop_of data ''timeSpent'' else JObj []"
  let ?qsd = "if typeof (prop_of data ''quizScores'') = ''object''
              then prop_of data ''quizScores'' else JObj []"
  from validate_raises [OF assms(2) t o] obtain ts qs
    where ts: "delete_non_numbers ?tsd = Inr ts" and qs: "delete_non_numbers ?qsd = Inr qs"
    by blast
  have "typeof ?tsd = ''object''" "?tsd = JUndefined \<or> is_json ?tsd"
    using field [of "''timeSpent''"] by auto
  with ts have nts: "numbers_only ts" by (rule numbers_only_deleted)
  have "typeof ?qsd = ''object''" "?qsd = JUndefined \<or> is_json ?qsd"
    using field [of "''quizScores''"] by auto
  with qs have nqs: "numbers_only qs" by (rule numbers_only_deleted)
  have la: "(if typeof (prop_of data ''lastActivity'') = ''number''
             then prop_of data ''lastActivity'' else JNum (Finite now)) \<noteq> JUndefined"
    by auto
  from validate_object [OF t o ts qs, of "defaultProgress loaded" now] assms(2)
  have V: "V = JObj [(''completedChapters'',
                   array_filter (\<lambda>ch. typeof ch = ''string'')
                     (if isArray (prop_of data ''completedChapters'')
                      then prop_of data ''completedChapters'' else JArr [])),
                (''timeSpent'', ts),
                (''quizScores'', qs),
                (''completedSections'',
                   array_filter (\<lambda>sec. typeof sec = ''string'')
                     (if isArray (prop_of data ''completedSections'')
                      then prop_of data ''completedSections'' else JArr [])),
                (''lastActivity'',
                   if typeof (prop_of data ''lastActivity'') = ''number''
                   then prop_of data ''lastActivity'' else JNum (Finite now)),
                (''exportTimestamp'', js_or (prop_of data ''exportTimestamp'') JUndefined),
                (''bookmarks'',
                   array_filter valid_bookmark
                     (if isArray (prop_of data ''bookmarks'') then prop_of data ''bookmarks''
                      else JArr [])),
                (''notes'',
                   if typeof (prop_of data ''notes'') = ''object'' then prop_of data ''notes''
                   else JObj [])]"
    by simp
  show ?thesis
    unfolding V normal_progress_def
    using nts nqs la strings_only_filter [of "prop_of data ''completedChapters''"]
      strings_only_filter [of "prop_of data ''completedSections''"]
      stored_bookmarks_filter [OF field [of "''bookmarks''"]]
      notes_normal [OF field [of "''notes''"]]
    by simp
qed

lemma finite_default: "finite_core (defaultProgress loaded)"
  by (simp add: finite_core_def core_fields_def defaultProgress_def)

lemma validate_finite:
  assumes "is_json data" and "finite_value data"
    and "validateProgressData (defaultProgress loaded) now data = Inr V"
  shows "finite_core V"
proof (cases "truthy data \<and> typeof data = ''object''")
  case False
  with assms(3) have "V = defaultProgress loaded"
    by (simp add: validateProgressData_def)
  then show ?thesis by (simp add: finite_default)
next
  case True
  then have t: "truthy data" and o: "typeof data = ''object''" by simp_all
  have field: "prop_of data k = JUndefined \<or> is_json (prop_of data k)" for k
    using assms(1) by (rule is_json_prop_of)
  have fin: "finite_value (prop_of data k)" for k
    using assms(2) by (rule finite_value_prop_of)
  let ?tsd = "if typeof (prop_of data ''timeSpent'') = ''object''
              then prop_of data ''timeSpent'' else JObj []"
  let ?qsd = "if typeof (prop_of data ''quizScores'') = ''object''
              then prop_of data ''quizScores'' else JObj []"
  from validate_raises [OF assms(3) t o] obtain ts qs
    where ts: "delete_non_numbers ?tsd = Inr ts" and qs: "delete_non_numbers ?qsd = Inr qs"
    by blast
  have "finite_value ?tsd" "?tsd = JUndefined \<or> is_json ?tsd"
    using field [of "''timeSpent''"] fin [of "''timeSpent''"] by auto
  with ts have fts: "finite_value ts" by (rule finite_deleted)
  have "finite_value ?qsd" "?qsd = JUndefined \<or> is_json ?qsd"
    using field [of "''quizScores''"] fin [of "''quizScores''"] by auto
  with qs have fqs: "finite_value qs" by (rule finite_deleted)
  note V = validate_object [OF t o ts qs, of "defaultProgress loaded" now]
  from assms(3) show ?thesis
    unfolding V finite_core_def core_fields_def
    using fts fqs finite_array_filter [OF fin [of "''completedChapters''"]]
      finite_array_filter [OF fin [of "''completedSections''"]]
      finite_array_filter [OF fin [of "''bookmarks''"]]
      finite_object_or_empty [OF fin [of "''notes''"]]
    by auto
qed

lemma strings_only_defined: "strings_only a \<Longrightarrow> a \<noteq> JUndefined"
  by auto

lemma numbers_only_defined: "numbers_only a \<Longrightarrow> a \<noteq> JUndefined"
  by auto

lemma stored_bookmarks_defined: "stored_bookmarks a \<Longrightarrow> a \<noteq> JUndefined"
  by auto

lemma typeof_object_defined: "typeof a = ''object'' \<Longrightarrow> a \<noteq> JUndefined"
  by auto

lemma key_present:
  assumes "prop_of (JObj kvs) k \<noteq> JUndefined"
  shows "k \<in> set (map fst kvs)"
proof (cases "map_of kvs k")
  case None
  with assms show ?thesis by simp
next
  case (Some v)
  then have "(k, v) \<in> set kvs" by (rule map_of_SomeD)
  then show ?thesis by force
qed

lemma normal_object:
  assumes "normal_progress p"
  obtains kvs where "p = JObj kvs" and "distinct (map fst kvs)"
  using assms by (cases p) (simp_all add: normal_progress_def)

lemma normal_defined:
  assumes "normal_progress p"
  shows "prop_of p ''completedChapters'' \<noteq> JUndefined"
    and "prop_of p ''completedSections'' \<noteq> JUndefined"
    and "prop_of p ''timeSpent'' \<noteq> JUndefined"
    and "prop_of p ''quizScores'' \<noteq> JUndefined"
    and "prop_of p ''bookmarks'' \<noteq> JUndefined"
    and "prop_of p ''notes'' \<noteq> JUndefined"
    and "prop_of p ''lastActivity'' \<noteq> JUndefined"
proof -
  from assms have "strings_only (prop_of p ''completedChapters'')"
    unfolding normal_progress_def by (elim conjE)
  then show "prop_of p ''completedChapters'' \<noteq> JUndefined" by (rule strings_only_defined)
  from assms have "strings_only (prop_of p ''completedSections'')"
    unfolding normal_progress_def by (elim conjE)
  then show "prop_of p ''completedSections'' \<noteq> JUndefined" by (rule strings_only_defined)
  from assms have "numbers_only (prop_of p ''timeSpent'')"
    unfolding normal_progress_def by (elim conjE)
  then show "prop_of p ''timeSpent'' \<noteq> JUndefined" by (rule numbers_only_defined)
  from assms have "numbers_only (prop_of p ''quizScores'')"
    unfolding normal_progress_def by (elim conjE)
  then show "prop_of p ''quizScores'' \<noteq> JUndefined" by (rule numbers_only_defined)
  from assms have "stored_bookmarks (prop_of p ''bookmarks'')"
    unfolding normal_progress_def by (elim conjE)
  then show "prop_of p ''bookmarks'' \<noteq> JUndefined" by (rule stored_bookmarks_defined)
  from assms have "typeof (prop_of p ''notes'') = ''object''"
    unfolding normal_progress_def by (elim conjE)
  then show "prop_of p ''notes'' \<noteq> JUndefined" by (rule typeof_object_defined)
  from assms show "prop_of p ''lastActivity'' \<noteq> JUndefined"
    unfolding normal_progress_def by (elim conjE)
qed

lemma normal_listed:
  assumes "normal_progress p"
  shows "listed_fields_valid p"
proof -
  from assms obtain kvs where p: "p = JObj kvs" by (rule normal_object)
  note d = normal_defined [OF assms, unfolded p]
  note k = d [THEN key_present]
  from assms have "stored_bookmarks (prop_of p ''bookmarks'')"
    unfolding normal_progress_def by (elim conjE)
  then have b: "bookmarks_only (prop_of (JObj kvs) ''bookmarks'')"
    unfolding p by (rule stored_bookmarks_fixed(5))
  from assms have s: "strings_only (prop_of (JObj kvs) ''completedChapters'')"
    "strings_only (prop_of (JObj kvs) ''completedSections'')"
    "numbers_only (prop_of (JObj kvs) ''timeSpent'')"
    "numbers_only (prop_of (JObj kvs) ''quizScores'')"
    unfolding normal_progress_def p by blast+
  show ?thesis
    unfolding listed_fields_valid_def p
    using d k b s by (simp del: prop_of.simps)
qed

lemma prop_of_assign_in:
  "distinct (map fst b) \<Longrightarrow> k \<in> set (map fst b)
     \<Longrightarrow> prop_of (JObj (assign a b)) k = prop_of (JObj b) k"
  by (simp add: map_of_assign_in)

lemma prop_of_assign_notin:
  "k \<notin> set (map fst b) \<Longrightarrow> prop_of (JObj (assign a b)) k = prop_of (JObj a) k"
  by (simp add: map_of_assign_notin)

lemma migrated_prop:
  assumes "distinct (map fst kvs)" and "f \<noteq> ''lastActivity''"
    and "prop_of (JObj kvs) f \<noteq> JUndefined"
  shows "prop_of (JObj (assign (assign a kvs) [(''lastActivity'', la)])) f = prop_of (JObj kvs) f"
proof -
  have "prop_of (JObj (assign (assign a kvs) [(''lastActivity'', la)])) f
        = prop_of (JObj (assign a kvs)) f"
    using assms(2) by (simp add: map_of_assign_one)
  also have "\<dots> = prop_of (JObj kvs) f"
    using assms(1) key_present [OF assms(3)] by (rule prop_of_assign_in)
  finally show ?thesis .
qed

lemma normal_migrated:
  assumes "normal_progress V" and "la \<noteq> JUndefined" and "distinct (map fst a)"
  shows "normal_progress (JObj (assign (assign a (entries V)) [(''lastActivity'', la)]))"
    and "core_fields (JObj (assign (assign a (entries V)) [(''lastActivity'', la)])) = core_fields V"
proof -
  from assms(1) obtain kvs where V: "V = JObj kvs" and d: "distinct (map fst kvs)"
    by (rule normal_object)
  note df = normal_defined [OF assms(1), unfolded V]
  let ?M = "JObj (assign (assign a kvs) [(''lastActivity'', la)])"
  have core: "prop_of ?M ''completedChapters'' = prop_of (JObj kvs) ''completedChapters''"
    "prop_of ?M ''completedSections'' = prop_of (JObj kvs) ''completedSections''"
    "prop_of ?M ''timeSpent'' = prop_of (JObj kvs) ''timeSpent''"
    "prop_of ?M ''quizScores'' = prop_of (JObj kvs) ''quizScores''"
    "prop_of ?M ''bookmarks'' = prop_of (JObj kvs) ''bookmarks''"
    "prop_of ?M ''notes'' = prop_of (JObj kvs) ''notes''"
    using d df by (simp_all only: migrated_prop list.inject char.inject simp_thms not_False_eq_True)
  have la: "prop_of ?M ''lastActivity'' = la"
    by (simp add: map_of_assign_one)
  have dk: "distinct_keys ?M"
    using assms(3) by (simp add: distinct_assign)
  show "core_fields (JObj (assign (assign a (entries V)) [(''lastActivity'', la)])) = core_fields V"
    unfolding core_fields_def V entries.simps using core by (simp del: prop_of.simps)
  from assms(1) have "normal_progress (JObj kvs)" unfolding V .
  then show "normal_progress (JObj (assign (assign a (entries V)) [(''lastActivity'', la)]))"
    unfolding normal_progress_def V entries.simps core la
    using dk assms(2) by (simp del: prop_of.simps)
qed

lemma load_normal:
  assumes "holds_text st"
  shows "normal_progress (fst (loadProgress loaded now st))"
proof (cases "loadProgress_try loaded now st")
  case (Inl e)
  then show ?thesis by (simp add: loadProgress_def normal_default)
next
  case (Inr p)
  have "normal_progress p"
  proof (cases "item st")
    case None
    with Inr show ?thesis
      by (auto simp: loadProgress_try_def normal_default split: if_splits)
  next
    case (Some stored)
    show ?thesis
    proof (cases stored)
      case (Unparsable s)
      with Some Inr show ?thesis
        by (auto simp: loadProgress_try_def normal_default split: if_splits)
    next
      case (Serialized parsed)
      with Some assms have j: "is_json parsed" by (simp add: holds_text_def)
      from Inr Some Serialized obtain V
        where V: "validateProgressData (defaultProgress loaded) now parsed = Inr V"
        by (cases "validateProgressData (defaultProgress loaded) now parsed")
           (auto simp: loadProgress_try_def split: if_splits)
      from j V have nV: "normal_progress V" by (rule validate_normal)
      have d: "distinct (map fst (entries (defaultProgress loaded)))"
        by (simp add: defaultProgress_def)
      have "js_or (prop_of parsed ''lastActivity'') (JNum (Finite now)) \<noteq> JUndefined"
        by (auto simp: js_or_def)
      from normal_migrated(1) [OF nV this d] nV Inr Some Serialized V show ?thesis
        by (auto simp: loadProgress_try_def split: if_splits)
    qed
  qed
  with Inr show ?thesis by (simp add: loadProgress_def)
qed

lemma load_unparsable:
  "item st = None \<or> item st = Some (Unparsable s)
     \<Longrightarrow> fst (loadProgress loaded now st) = defaultProgress loaded"
  by (auto simp: loadProgress_def loadProgress_try_def split: sum.splits if_splits)

lemma load_finite:
  assumes "holds_finite_text st"
  shows "finite_core (fst (loadProgress loaded now st))"
proof (cases "loadProgress_try loaded now st")
  case (Inl e)
  then show ?thesis by (simp add: loadProgress_def finite_default)
next
  case (Inr p)
  have "finite_core p"
  proof (cases "item st")
    case None
    with Inr show ?thesis
      by (auto simp: loadProgress_try_def finite_default split: if_splits)
  next
    case (Some stored)
    show ?thesis
    proof (cases stored)
      case (Unparsable s)
      with Some Inr show ?thesis
        by (auto simp: loadProgress_try_def finite_default split: if_splits)
    next
      case (Serialized parsed)
      with Some assms have j: "is_json parsed" and f: "finite_value parsed"
        by (simp_all add: holds_finite_text_def)
      from Inr Some Serialized obtain V
        where V: "validateProgressData (defaultProgress loaded) now parsed = Inr V"
        by (cases "validateProgressData (defaultProgress loaded) now parsed")
           (auto simp: loadProgress_try_def split: if_splits)
      from j V have nV: "normal_progress V" by (rule validate_normal)
      from j f V have fV: "finite_core V" by (rule validate_finite)
      have d: "distinct (map fst (entries (defaultProgress loaded)))"
        by (simp add: defaultProgress_def)
      have "js_or (prop_of parsed ''lastActivity'') (JNum (Finite now)) \<noteq> JUndefined"
        by (auto simp: js_or_def)
      from normal_migrated(2) [OF nV this d] fV
      have "finite_core (JObj (assign (assign (entries (defaultProgress loaded)) (entries V))
              [(''lastActivity'', js_or (prop_of parsed ''lastActivity'') (JNum (Finite now)))]))"
        by (simp only: finite_core_def)
      with fV Inr Some Serialized V show ?thesis
        by (auto simp: loadProgress_try_def split: if_splits)
    qed
  qed
  with Inr show ?thesis by (simp add: loadProgress_def)
qed

lemma holds_finite_text_holds: "holds_finite_text st \<Longrightarrow> holds_text st"
  by (auto simp: holds_finite_text_def holds_text_def split: option.splits json_text.splits)


subsection \<open>Validation of what validation produced\<close>

lemma validate_fixed:
  assumes "truthy data" and "typeof data = ''object''"
    and "strings_only cc" and "strings_only cs" and "numbers_only ts" and "numbers_only qs"
    and "stored_bookmarks bm" and "typeof nt = ''object''"
    and "prop_of data ''completedChapters'' = cc"
    and "prop_of data ''completedSections'' = cs"
    and "prop_of data ''timeSpent'' = ts \<or> prop_of data ''timeSpent'' = to_json ts"
    and "prop_of data ''quizScores'' = qs \<or> prop_of data ''quizScores'' = to_json qs"
    and "prop_of data ''bookmarks'' = bm"
    and "prop_of data ''notes'' = nt"
    and "finite_value ts" and "finite_value qs"
  shows "validateProgressData dflt now data =
     Inr (JObj [(''completedChapters'', cc),
                (''timeSpent'', ts),
                (''quizScores'', qs),
                (''completedSections'', cs),
                (''lastActivity'',
                   if typeof (prop_of data ''lastActivity'') = ''number''
                   then prop_of data ''lastActivity'' else JNum (Finite now)),
                (''exportTimestamp'', js_or (prop_of data ''exportTimestamp'') JUndefined),
                (''bookmarks'', bm),
                (''notes'', nt)])"
proof -
  have ts: "delete_non_numbers (if typeof (prop_of data ''timeSpent'') = ''object''
                             then prop_of data ''timeSpent'' else JObj []) = Inr ts"
    using assms(11) numbers_only_fixed(1-4) [OF assms(5,15)] by auto
  have qs: "delete_non_numbers (if typeof (prop_of data ''quizScores'') = ''object''
                             then prop_of data ''quizScores'' else JObj []) = Inr qs"
    using assms(12) numbers_only_fixed(1-4) [OF assms(6,16)] by auto
  show ?thesis
    unfolding validate_object [OF assms(1,2) ts qs]
    unfolding assms(9,10,13,14)
    using strings_only_fixed(1,2) [OF assms(3)] strings_only_fixed(1,2) [OF assms(4)]
      stored_bookmarks_fixed(1,2) [OF assms(7)] assms(8)
    by (simp del: prop_of.simps)
qed

subsection \<open>Export, then import, then load\<close>

lemma exported_prop:
  assumes "distinct (map fst kvs)" and "prop_of (JObj kvs) f \<noteq> JUndefined"
    and "f \<notin> {''exportTimestamp'', ''version'', ''metadata''}"
  shows "prop_of (JObj (filter (\<lambda>(k, v). k \<notin> {''exportTimestamp'', ''version'', ''metadata''})
            (entries (to_json (JObj (assign kvs
               [(''exportTimestamp'', a), (''version'', b), (''metadata'', c)])))))) f
         = to_json (prop_of (JObj kvs) f)"
proof -
  let ?X = "assign kvs [(''exportTimestamp'', a), (''version'', b), (''metadata'', c)]"
  have d: "distinct (map fst ?X)" using assms(1) by (rule distinct_assign)
  have x: "prop_of (JObj ?X) f = prop_of (JObj kvs) f"
    using assms(3) by (intro prop_of_assign_notin) simp
  obtain el where el: "to_json (JObj ?X) = JObj el" by simp
  have "prop_of (JObj (filter (\<lambda>(k, v). k \<notin> {''exportTimestamp'', ''version'', ''metadata''})
            (entries (to_json (JObj ?X))))) f = prop_of (JObj el) f"
    unfolding el
    using assms(3) map_of_filter_keys [of "{''exportTimestamp'', ''version'', ''metadata''}" el f]
    by simp
  also have "\<dots> = prop_of (to_json (JObj ?X)) f" by (simp only: el)
  also have "\<dots> = to_json (prop_of (JObj kvs) f)"
    unfolding prop_of_to_json [OF d] x using assms(2) by simp
  finally show ?thesis .
qed

lemma exported_timestamp:
  "prop_of (JObj (filter (\<lambda>(k, v). k \<notin> {''exportTimestamp'', ''version'', ''metadata''}) el))
     ''exportTimestamp'' = JUndefined"
  using map_of_filter_keys [of "{''exportTimestamp'', ''version'', ''metadata''}" el
          "''exportTimestamp''"]
  by simp


lemma save_validated:
  assumes "strings_only cc" and "strings_only cs" and "numbers_only ts" and "numbers_only qs"
    and "stored_bookmarks bm" and "typeof nt = ''object''" and "is_json nt"
    and "\<not> blocked st" and "\<not> quota_exceeded st"
    and "finite_value ts" and "finite_value qs" and "finite_value bm" and "finite_value nt"
  shows "saveProgress loaded now
           (JObj [(''completedChapters'', cc), (''timeSpent'', ts), (''quizScores'', qs),
                  (''completedSections'', cs), (''lastActivity'', JNum (Finite n)),
                  (''exportTimestamp'', JUndefined), (''bookmarks'', bm), (''notes'', nt)]) st
         = (True, st \<lparr> item := Some (Serialized
              (JObj [(''completedChapters'', cc), (''timeSpent'', to_json ts),
                     (''quizScores'', to_json qs), (''completedSections'', cs),
                     (''lastActivity'', JNum (Finite n)), (''bookmarks'', bm), (''notes'', nt)])) \<rparr>)"
proof -
  let ?p = "JObj [(''completedChapters'', cc), (''timeSpent'', ts), (''quizScores'', qs),
                  (''completedSections'', cs), (''lastActivity'', JNum (Finite n)),
                  (''exportTimestamp'', JUndefined), (''bookmarks'', bm), (''notes'', nt)]"
  have v: "validateProgressData (defaultProgress loaded) now ?p = Inr ?p"
    using validate_fixed [of ?p cc cs ts qs bm nt "defaultProgress loaded" now] assms(1-6,10,11)
    by (simp add: js_or_def)
  have tj: "to_json ?p = JObj [(''completedChapters'', cc), (''timeSpent'', to_json ts),
                     (''quizScores'', to_json qs), (''completedSections'', cs),
                     (''lastActivity'', JNum (Finite n)), (''bookmarks'', bm), (''notes'', nt)]"
    using strings_only_fixed(3,4) [OF assms(1)] strings_only_fixed(3,4) [OF assms(2)]
      numbers_only_fixed(5) [OF assms(3,10)] numbers_only_fixed(5) [OF assms(4,11)]
      stored_bookmarks_fixed(4) [OF assms(5)]
      to_json_finite [OF stored_bookmarks_fixed(3) [OF assms(5)] assms(12)]
      to_json_finite [OF assms(7,13)] is_json_defined [OF assms(7)]
    by simp
  show ?thesis
    using assms(8,9) by (simp add: saveProgress_def v tj del: to_json.simps)
qed

lemma load_saved:
  assumes "strings_only cc" and "strings_only cs" and "numbers_only ts" and "numbers_only qs"
    and "stored_bookmarks bm" and "typeof nt = ''object''" and "is_json nt"
    and "\<not> blocked st"
    and "item st = Some (Serialized
              (JObj [(''completedChapters'', cc), (''timeSpent'', to_json ts),
                     (''quizScores'', to_json qs), (''completedSections'', cs),
                     (''lastActivity'', JNum (Finite n)), (''bookmarks'', bm), (''notes'', nt)]))"
    and "finite_value ts" and "finite_value qs"
  shows "core_fields (fst (loadProgress loaded now st)) = [cc, cs, ts, qs, bm, nt]"
proof -
  let ?s = "JObj [(''completedChapters'', cc), (''timeSpent'', to_json ts),
                     (''quizScores'', to_json qs), (''completedSections'', cs),
                     (''lastActivity'', JNum (Finite n)), (''bookmarks'', bm), (''notes'', nt)]"
  let ?v = "JObj [(''completedChapters'', cc), (''timeSpent'', ts), (''quizScores'', qs),
                  (''completedSections'', cs), (''lastActivity'', JNum (Finite n)),
                  (''exportTimestamp'', JUndefined), (''bookmarks'', bm), (''notes'', nt)]"
  have v: "validateProgressData (defaultProgress loaded) now ?s = Inr ?v"
    using validate_fixed [of ?s cc cs ts qs bm nt "defaultProgress loaded" now] assms(1-6,10,11)
    by (simp add: js_or_def)
  have c: "core_fields ?v = [cc, cs, ts, qs, bm, nt]"
    by (simp add: core_fields_def)
  have m: "core_fields (JObj (assign (assign (entries (defaultProgress loaded)) (entries ?v))
             [(''lastActivity'', la)])) = [cc, cs, ts, qs, bm, nt]" for la
    by (simp add: core_fields_def defaultProgress_def assign_def set_key_def)
  show ?thesis
    unfolding loadProgress_def loadProgress_try_def assms(9)
    using assms(8) by (simp add: v c m del: entries.simps prop_of.simps)
qed

lemma import_exported:
  assumes "normal_progress P" and "\<not> blocked st" and "\<not> quota_exceeded st"
    and "finite_core P"
  shows "importProgressData loaded now
           (Serialized (to_json (JObj (assign (entries P)
              [(''exportTimestamp'', a), (''version'', b), (''metadata'', c)])))) st
         = (True, st \<lparr> item := Some (Serialized
              (JObj [(''completedChapters'', prop_of P ''completedChapters''),
                     (''timeSpent'', to_json (prop_of P ''timeSpent'')),
                     (''quizScores'', to_json (prop_of P ''quizScores'')),
                     (''completedSections'', prop_of P ''completedSections''),
                     (''lastActivity'', JNum (Finite now)),
                     (''bookmarks'', prop_of P ''bookmarks''),
                     (''notes'', prop_of P ''notes'')])) \<rparr>)"
proof -
  from assms(1) obtain kvs where P: "P = JObj kvs" and d: "distinct (map fst kvs)"
    by (rule normal_object)
  note df = normal_defined [OF assms(1), unfolded P]
  define cc where "cc = prop_of (JObj kvs) ''completedChapters''"
  define cs where "cs = prop_of (JObj kvs) ''completedSections''"
  define ts where "ts = prop_of (JObj kvs) ''timeSpent''"
  define qs where "qs = prop_of (JObj kvs) ''quizScores''"
  define bm where "bm = prop_of (JObj kvs) ''bookmarks''"
  define nt where "nt = prop_of (JObj kvs) ''notes''"
  from assms(1) have n: "strings_only cc" "strings_only cs" "numbers_only ts" "numbers_only qs"
    "stored_bookmarks bm" "typeof nt = ''object''" "is_json nt"
    unfolding normal_progress_def P cc_def cs_def ts_def qs_def bm_def nt_def by blast+
  from assms(4) have f: "finite_value ts" "finite_value qs" "finite_value bm" "finite_value nt"
    unfolding finite_core_def core_fields_def P cc_def cs_def ts_def qs_def bm_def nt_def
    by (simp_all del: prop_of.simps)
  define E where "E = to_json (JObj (assign kvs
              [(''exportTimestamp'', a), (''version'', b), (''metadata'', c)]))"
  define pd where "pd = JObj (filter (\<lambda>(k, v). k \<notin> {''exportTimestamp'', ''version'', ''metadata''})
               (entries E))"
  have E: "truthy E" "typeof E = ''object''" by (simp_all add: E_def)
  have pd: "truthy pd" "typeof pd = ''object''" by (simp_all add: pd_def)
  have x: "prop_of pd ''completedChapters'' = to_json cc"
    "prop_of pd ''completedSections'' = to_json cs"
    "prop_of pd ''timeSpent'' = to_json ts"
    "prop_of pd ''quizScores'' = to_json qs"
    "prop_of pd ''bookmarks'' = to_json bm"
    "prop_of pd ''notes'' = to_json nt"
    unfolding pd_def E_def cc_def cs_def ts_def qs_def bm_def nt_def
    by (rule exported_prop [OF d]; (rule df | simp))+
  have p: "prop_of pd ''completedChapters'' = cc" "prop_of pd ''completedSections'' = cs"
    "prop_of pd ''timeSpent'' = to_json ts" "prop_of pd ''quizScores'' = to_json qs"
    "prop_of pd ''bookmarks'' = bm" "prop_of pd ''notes'' = nt"
    using x strings_only_fixed(3) [OF n(1)] strings_only_fixed(3) [OF n(2)]
      to_json_finite [OF stored_bookmarks_fixed(3) [OF n(5)] f(3)] to_json_finite [OF n(7) f(4)]
    by (simp_all only:)
  have et: "prop_of pd ''exportTimestamp'' = JUndefined"
    unfolding pd_def by (rule exported_timestamp)
  define la where "la = (if typeof (prop_of pd ''lastActivity'') = ''number''
                         then prop_of pd ''lastActivity'' else JNum (Finite now))"
  have v: "validateProgressData (defaultProgress loaded) now pd =
     Inr (JObj [(''completedChapters'', cc), (''timeSpent'', ts), (''quizScores'', qs),
                (''completedSections'', cs), (''lastActivity'', la),
                (''exportTimestamp'', JUndefined), (''bookmarks'', bm), (''notes'', nt)])"
    unfolding la_def
    using validate_fixed [of pd cc cs ts qs bm nt "defaultProgress loaded" now, OF pd n(1-6)] p f(1,2)
    unfolding et by (simp add: js_or_def del: prop_of.simps)
  have w: "assign (entries (JObj [(''completedChapters'', cc), (''timeSpent'', ts),
                (''quizScores'', qs), (''completedSections'', cs), (''lastActivity'', la),
                (''exportTimestamp'', JUndefined), (''bookmarks'', bm), (''notes'', nt)]))
              [(''lastActivity'', JNum (Finite now))]
           = [(''completedChapters'', cc), (''timeSpent'', ts), (''quizScores'', qs),
              (''completedSections'', cs), (''lastActivity'', JNum (Finite now)),
              (''exportTimestamp'', JUndefined), (''bookmarks'', bm), (''notes'', nt)]"
    by (simp add: assign_def set_key_def)
  have "importProgressData loaded now (Serialized E) st =
          saveProgress loaded now
            (JObj [(''completedChapters'', cc), (''timeSpent'', ts), (''quizScores'', qs),
                  (''completedSections'', cs), (''lastActivity'', JNum (Finite now)),
                  (''exportTimestamp'', JUndefined), (''bookmarks'', bm), (''notes'', nt)]) st"
    unfolding importProgressData_def json_text.case Let_def pd_def [symmetric]
    using E by (simp add: v w del: entries.simps)
  also note save_validated [OF n assms(2,3) f]
  finally show ?thesis
    unfolding P entries.simps E_def cc_def cs_def ts_def qs_def bm_def nt_def .
qed


lemma load_flags:
  "blocked (fst (snd (loadProgress loaded now st))) = blocked st"
  "quota_exceeded (fst (snd (loadProgress loaded now st))) = quota_exceeded st"
  by (simp_all add: loadProgress_def split: sum.splits)

lemma numbers_only_keys: "numbers_only v \<Longrightarrow> \<exists>ks. Object_keys v = Inr ks"
  by (cases v) simp_all

lemma validate_clock:
  "(\<exists>e. validateProgressData dflt n data = Inl e \<and> validateProgressData dflt n' data = Inl e)
   \<or> (\<exists>V V'. validateProgressData dflt n data = Inr V \<and> validateProgressData dflt n' data = Inr V'
         \<and> core_fields V' = core_fields V)"
proof (cases "truthy data \<and> typeof data = ''object''")
  case False
  then show ?thesis by (auto simp: validateProgressData_def)
next
  case True
  let ?TS = "delete_non_numbers (if typeof (prop_of data ''timeSpent'') = ''object''
                         then prop_of data ''timeSpent'' else JObj [])"
  let ?QS = "delete_non_numbers (if typeof (prop_of data ''quizScores'') = ''object''
                         then prop_of data ''quizScores'' else JObj [])"
  show ?thesis
  proof (cases ?TS)
    case (Inl e)
    with True show ?thesis by (simp add: validateProgressData_def Let_def)
  next
    case ts: (Inr ts)
    show ?thesis
    proof (cases ?QS)
      case (Inl e)
      with True ts show ?thesis by (simp add: validateProgressData_def Let_def)
    next
      case qs: (Inr qs)
      from True have t: "truthy data" and o: "typeof data = ''object''" by simp_all
      show ?thesis
        unfolding validate_object [OF t o ts qs]
        by (simp add: core_fields_def)
    qed
  qed
qed

lemma load_core_clock:
  assumes "holds_text st"
  shows "core_fields (fst (loadProgress loaded n st)) = core_fields (fst (loadProgress loaded n' st))"
proof (cases "blocked st")
  case True
  then show ?thesis by (simp add: loadProgress_def loadProgress_try_def)
next
  case nb: False
  show ?thesis
  proof (cases "item st")
    case None
    with nb show ?thesis by (simp add: loadProgress_def loadProgress_try_def)
  next
    case (Some stored)
    show ?thesis
    proof (cases stored)
      case (Unparsable s)
      with Some nb show ?thesis by (simp add: loadProgress_def loadProgress_try_def)
    next
      case (Serialized parsed)
      with Some assms have j: "is_json parsed" by (simp add: holds_text_def)
      have d: "distinct (map fst (entries (defaultProgress loaded)))"
        by (simp add: defaultProgress_def)
      from validate_clock [of "defaultProgress loaded" n parsed n']
      show ?thesis
      proof (elim disjE exE conjE)
        fix e
        assume "validateProgressData (defaultProgress loaded) n parsed = Inl e"
          "validateProgressData (defaultProgress loaded) n' parsed = Inl e"
        with Some Serialized nb show ?thesis
          by (simp add: loadProgress_def loadProgress_try_def)
      next
        fix V V'
        assume V: "validateProgressData (defaultProgress loaded) n parsed = Inr V"
          and V': "validateProgressData (defaultProgress loaded) n' parsed = Inr V'"
          and c: "core_fields V' = core_fields V"
        from j V have nV: "normal_progress V" by (rule validate_normal)
        from j V' have nV': "normal_progress V'" by (rule validate_normal)
        have la: "js_or (prop_of parsed ''lastActivity'') (JNum (Finite m)) \<noteq> JUndefined" for m
          by (auto simp: js_or_def)
        note m = normal_migrated(2) [OF nV la d, of n] normal_migrated(2) [OF nV' la d, of n']
        from Some Serialized nb V V' c m show ?thesis
          by (simp add: loadProgress_def loadProgress_try_def del: entries.simps prop_of.simps)
      qed
    qed
  qed
qed

lemma export_normal:
  assumes "holds_text st"
  shows "\<exists>m. exportProgressData loaded now exportDate st =
           (Some (Serialized (to_json (JObj (assign (entries (fst (loadProgress loaded now st)))
              [(''exportTimestamp'', JNum (Finite now)), (''version'', JStr ''1.0''), (''metadata'', m)])))),
            fst (snd (loadProgress loaded now st)))"
proof -
  obtain P st' lg where L: "loadProgress loaded now st = (P, st', lg)"
    by (cases "loadProgress loaded now st")
  from load_normal [OF assms, of loaded now] L have "normal_progress P" by simp
  then have "numbers_only (prop_of P ''timeSpent'')"
    unfolding normal_progress_def by blast
  then obtain ks where "Object_keys (prop_of P ''timeSpent'') = Inr ks"
    using numbers_only_keys by blast
  with L have "exportProgressData loaded now exportDate st =
           (Some (Serialized (to_json (JObj (assign (entries (fst (loadProgress loaded now st)))
              [(''exportTimestamp'', JNum (Finite now)), (''version'', JStr ''1.0''),
               (''metadata'', JObj [(''totalChapters'', JNum (Finite 13)),
                                    (''totalSections'', JNum (Finite (of_nat (length ks)))),
                                    (''exportDate'', JStr exportDate)])])))),
            fst (snd (loadProgress loaded now st)))"
    by (simp add: exportProgressData_def del: prop_of.simps entries.simps to_json.simps)
  then show ?thesis by (rule exI)
qed

lemma load_core_validated:
  assumes "\<not> blocked st" and "item st = Some (Serialized v)" and "is_json v"
    and "validateProgressData (defaultProgress loaded) n v = Inr V"
  shows "core_fields (fst (loadProgress loaded now st)) = core_fields V"
proof -
  from validate_clock [of "defaultProgress loaded" n v now] assms(4) obtain V'
    where V': "validateProgressData (defaultProgress loaded) now v = Inr V'"
      and c: "core_fields V' = core_fields V"
    by auto
  from assms(3) V' have nV': "normal_progress V'" by (rule validate_normal)
  have d: "distinct (map fst (entries (defaultProgress loaded)))"
    by (simp add: defaultProgress_def)
  have la: "js_or (prop_of v ''lastActivity'') (JNum (Finite now)) \<noteq> JUndefined"
    by (auto simp: js_or_def)
  note m = normal_migrated(2) [OF nV' la d]
  from assms(1,2) V' c m show ?thesis
    by (simp add: loadProgress_def loadProgress_try_def del: entries.simps prop_of.simps)
qed

lemma core_to_json:
  assumes "normal_progress V"
  shows "core_fields (to_json V) = map to_json (core_fields V)"
proof -
  from assms obtain kvs where V: "V = JObj kvs" and d: "distinct (map fst kvs)"
    by (rule normal_object)
  note df = normal_defined [OF assms, unfolded V]
  show ?thesis
    unfolding V core_fields_def
    using df by (simp add: prop_of_to_json [OF d] del: prop_of.simps to_json.simps)
qed

lemma loadProgress_listed_fields:
  assumes "holds_text st"
  shows "listed_fields_valid (fst (loadProgress loaded now st))
       \<and> (case item st of
            Some (Serialized parsed) \<Rightarrow> True
          | _ \<Rightarrow> fst (loadProgress loaded now st) = defaultProgress loaded)"
proof -
  have "listed_fields_valid (fst (loadProgress loaded now st))"
    using assms by (intro normal_listed load_normal)
  moreover have "fst (loadProgress loaded now st) = defaultProgress loaded"
    if "item st = None \<or> item st = Some (Unparsable s)" for s
    using that by (rule load_unparsable)
  ultimately show ?thesis
    by (auto split: option.splits json_text.splits)
qed

lemma import_of_export:
  assumes "holds_finite_text st" and "\<not> blocked target" and "\<not> quota_exceeded target"
  shows "\<exists>exported st1 w.
           exportProgressData loaded t1 exportDate st = (Some exported, st1)
         \<and> importProgressData loaded t2 exported target = (True, target \<lparr> item := Some (Serialized w) \<rparr>)
         \<and> core_fields w = map to_json (core_fields (fst (loadProgress loaded t1 st)))
         \<and> core_fields (fst (loadProgress loaded t3 (target \<lparr> item := Some (Serialized w) \<rparr>)))
             = core_fields (fst (loadProgress loaded t1 st))"
proof -
  let ?P = "fst (loadProgress loaded t1 st)"
  let ?st1 = "fst (snd (loadProgress loaded t1 st))"
  have h: "holds_text st" using assms(1) by (rule holds_finite_text_holds)
  from export_normal [OF h, of loaded t1 exportDate] obtain m where
    ex: "exportProgressData loaded t1 exportDate st =
           (Some (Serialized (to_json (JObj (assign (entries ?P)
              [(''exportTimestamp'', JNum (Finite t1)), (''version'', JStr ''1.0''),
               (''metadata'', m)])))),
            ?st1)"
    by blast
  have n: "normal_progress ?P" using h by (rule load_normal)
  have f: "finite_core ?P" using assms(1) by (rule load_finite)
  let ?w = "JObj [(''completedChapters'', prop_of ?P ''completedChapters''),
                  (''timeSpent'', to_json (prop_of ?P ''timeSpent'')),
                  (''quizScores'', to_json (prop_of ?P ''quizScores'')),
                  (''completedSections'', prop_of ?P ''completedSections''),
                  (''lastActivity'', JNum (Finite t2)),
                  (''bookmarks'', prop_of ?P ''bookmarks''),
                  (''notes'', prop_of ?P ''notes'')]"
  note im = import_exported [OF n assms(2,3) f, of loaded t2 "JNum (Finite t1)" "JStr ''1.0''" m]
  from n have nn: "strings_only (prop_of ?P ''completedChapters'')"
    "strings_only (prop_of ?P ''completedSections'')"
    "numbers_only (prop_of ?P ''timeSpent'')" "numbers_only (prop_of ?P ''quizScores'')"
    "stored_bookmarks (prop_of ?P ''bookmarks'')" "typeof (prop_of ?P ''notes'') = ''object''"
    "is_json (prop_of ?P ''notes'')"
    unfolding normal_progress_def by blast+
  from f have ff: "finite_value (prop_of ?P ''timeSpent'')" "finite_value (prop_of ?P ''quizScores'')"
    "finite_value (prop_of ?P ''bookmarks'')" "finite_value (prop_of ?P ''notes'')"
    unfolding finite_core_def core_fields_def by (simp_all del: prop_of.simps)
  have tj: "to_json (prop_of ?P ''completedChapters'') = prop_of ?P ''completedChapters''"
    "to_json (prop_of ?P ''completedSections'') = prop_of ?P ''completedSections''"
    "to_json (prop_of ?P ''bookmarks'') = prop_of ?P ''bookmarks''"
    "to_json (prop_of ?P ''notes'') = prop_of ?P ''notes''"
    using strings_only_fixed(3) [OF nn(1)] strings_only_fixed(3) [OF nn(2)]
      to_json_finite [OF stored_bookmarks_fixed(3) [OF nn(5)] ff(3)] to_json_finite [OF nn(7) ff(4)]
    by (simp_all only:)
  have c: "core_fields ?w = map to_json (core_fields ?P)"
    unfolding core_fields_def [of ?P] list.map tj by (simp add: core_fields_def)
  have l: "core_fields (fst (loadProgress loaded t3 (target \<lparr> item := Some (Serialized ?w) \<rparr>)))
        = core_fields ?P"
    unfolding core_fields_def [of ?P] list.map
    using assms(2) ff(1,2) by (intro load_saved [OF nn]) simp_all
  from ex im c l show ?thesis by blast
qed

text \<open>
  C9. For the stored item \<^verbatim>\<open>{"notes":null,"lastActivity":"yesterday"}\<close>, \<^verbatim>\<open>loadProgress\<close> raises
  nothing and returns a progress object whose listed fields are as validation leaves them,
  but whose \<^verbatim>\<open>notes\<close> is \<^verbatim>\<open>null\<close> and whose \<^verbatim>\<open>lastActivity\<close> is the string: it is no
  well-formed \<^verbatim>\<open>ProgressData\<close>.
\<close>

theorem loadProgress_returns_malformed:
  "holds_text malformed_storage
   \<and> fst (loadProgress 1 2 malformed_storage)
       = JObj [(''completedChapters'', JArr []), (''timeSpent'', JObj []),
               (''quizScores'', JObj []), (''completedSections'', JArr []),
               (''lastActivity'', JStr ''yesterday''), (''bookmarks'', JArr []),
               (''notes'', JNull), (''exportTimestamp'', JUndefined)]
   \<and> listed_fields_valid (fst (loadProgress 1 2 malformed_storage))
   \<and> typeof (prop_of (fst (loadProgress 1 2 malformed_storage)) ''lastActivity'') = ''string''
   \<and> prop_of (fst (loadProgress 1 2 malformed_storage)) ''notes'' = JNull
   \<and> \<not> well_formed_progress (fst (loadProgress 1 2 malformed_storage))"
proof -
  have h: "holds_text malformed_storage"
    by (simp add: holds_text_def malformed_storage_def)
  have l: "fst (loadProgress 1 2 malformed_storage)
       = JObj [(''completedChapters'', JArr []), (''timeSpent'', JObj []),
               (''quizScores'', JObj []), (''completedSections'', JArr []),
               (''lastActivity'', JStr ''yesterday''), (''bookmarks'', JArr []),
               (''notes'', JNull), (''exportTimestamp'', JUndefined)]"
    by (simp add: loadProgress_def loadProgress_try_def malformed_storage_def
          validateProgressData_def defaultProgress_def Let_def array_filter_def
          js_or_def assign_def set_key_def)
  from loadProgress_listed_fields [OF h, of 1 2]
  have v: "listed_fields_valid (fst (loadProgress 1 2 malformed_storage))" by simp
  from h v show ?thesis
    unfolding l by (simp add: well_formed_progress_def)
qed

text \<open>
  C8, as stated, fails: with a stored \<^verbatim>\<open>timeSpent\<close> of \<^verbatim>\<open>{"a":1e400,"b":7}\<close>, the loaded progress
  has \<^verbatim>\<open>a: Infinity\<close>, the export writes it as \<^verbatim>\<open>null\<close>, the import drops the key, and the
  progress loaded after the import has \<^verbatim>\<open>timeSpent\<close> \<^verbatim>\<open>{"b":7}\<close>.
\<close>

theorem export_import_drops_infinite_time:
  "holds_text overflow_storage
   \<and> prop_of (fst (loadProgress 1 2 overflow_storage)) ''timeSpent''
       = JObj [(''a'', JNum Infinity), (''b'', JNum (Finite 7))]
   \<and> fst (importProgressData 1 4
         (the (fst (exportProgressData 1 3 ''2025-12-21T10:00:00.000Z'' overflow_storage)))
         (snd (exportProgressData 1 3 ''2025-12-21T10:00:00.000Z'' overflow_storage)))
   \<and> prop_of (fst (loadProgress 1 5 (snd (importProgressData 1 4
         (the (fst (exportProgressData 1 3 ''2025-12-21T10:00:00.000Z'' overflow_storage)))
         (snd (exportProgressData 1 3 ''2025-12-21T10:00:00.000Z'' overflow_storage))))))
       ''timeSpent''
       = JObj [(''b'', JNum (Finite 7))]"
  by (simp add: holds_text_def overflow_storage_def loadProgress_def loadProgress_try_def
        exportProgressData_def importProgressData_def saveProgress_def
        validateProgressData_def defaultProgress_def Let_def array_filter_def delete_key_def
        js_or_def assign_def set_key_def)

text \<open>
  C8, amended. Let the storage hold nothing or any text whose numbers, if it is JSON, are
  all finite, and let it be readable. Then \<^verbatim>\<open>exportProgressData\<close> returns a text, and
  \<^verbatim>\<open>importProgressData\<close> on that text, into any storage that can be read and written,
  succeeds; the progress loaded afterwards has the same \<^verbatim>\<open>completedChapters\<close>,
  \<^verbatim>\<open>completedSections\<close>, \<^verbatim>\<open>timeSpent\<close>, \<^verbatim>\<open>quizScores\<close>, \<^verbatim>\<open>bookmarks\<close> and \<^verbatim>\<open>notes\<close> as the
  progress loaded before, whatever the clock reads at each step; the item stored by the
  import holds these six fields as JSON; and when the item stored before was a progress
  state that validation keeps as it is, the item stored by the import has the same six
  fields as that one.
\<close>

theorem export_import_restores_finite_progress:
  assumes "holds_finite_text st" and "\<not> blocked st"
    and "\<not> blocked target" and "\<not> quota_exceeded target"
  shows "case exportProgressData loaded t1 exportDate st of
           (None, st1) \<Rightarrow> False
         | (Some exported, st1) \<Rightarrow>
             fst (importProgressData loaded t2 exported target)
             \<and> core_fields (fst (loadProgress loaded t3
                   (snd (importProgressData loaded t2 exported target))))
               = core_fields (fst (loadProgress loaded t0 st))
             \<and> stored_fields (snd (importProgressData loaded t2 exported target))
               = Some (map to_json (core_fields (fst (loadProgress loaded t0 st))))
             \<and> (case item st of
                  Some (Serialized v) \<Rightarrow>
                    if kept_by_validation loaded v
                    then stored_fields (snd (importProgressData loaded t2 exported target))
                         = stored_fields st
                    else True
                | _ \<Rightarrow> True)"
proof -
  have h: "holds_text st" using assms(1) by (rule holds_finite_text_holds)
  from import_of_export [OF assms(1,3,4), of loaded t1 exportDate t2 t3]
  obtain exported st1 w where
    ex: "exportProgressData loaded t1 exportDate st = (Some exported, st1)"
    and im: "importProgressData loaded t2 exported target
             = (True, target \<lparr> item := Some (Serialized w) \<rparr>)"
    and c: "core_fields w = map to_json (core_fields (fst (loadProgress loaded t1 st)))"
    and l: "core_fields (fst (loadProgress loaded t3 (target \<lparr> item := Some (Serialized w) \<rparr>)))
             = core_fields (fst (loadProgress loaded t1 st))"
    by blast
  have k: "core_fields (fst (loadProgress loaded t1 st)) = core_fields (fst (loadProgress loaded t0 st))"
    using h by (rule load_core_clock)
  have s: "stored_fields (target \<lparr> item := Some (Serialized w) \<rparr>)
           = Some (map to_json (core_fields (fst (loadProgress loaded t0 st))))"
    using c k by (simp add: stored_fields_def)
  have kept: "stored_fields (target \<lparr> item := Some (Serialized w) \<rparr>) = stored_fields st"
    if v: "item st = Some (Serialized v)" and kv: "kept_by_validation loaded v" for v
  proof -
    from kv obtain V where V: "validateProgressData (defaultProgress loaded) 0 v = Inr V"
      and cv: "core_fields (to_json V) = core_fields v"
      by (cases "validateProgressData (defaultProgress loaded) 0 v")
         (simp_all add: kept_by_validation_def)
    from v h have j: "is_json v" by (simp add: holds_text_def)
    from j V have nV: "normal_progress V" by (rule validate_normal)
    have "core_fields (fst (loadProgress loaded t0 st)) = core_fields V"
      using assms(2) v j V by (rule load_core_validated)
    with s core_to_json [OF nV] cv v show ?thesis
      by (simp add: stored_fields_def)
  qed
  show ?thesis
    unfolding ex prod.case option.case im
    using l k s kept by (auto split: option.splits json_text.splits)
qed


lemma saved_kept: "kept_by_validation 1 saved_item"
  by (simp add: kept_by_validation_def saved_item_def validateProgressData_def
        defaultProgress_def Let_def array_filter_def valid_bookmark_def delete_key_def
        js_or_def core_fields_def)

lemma saved_load: "core_fields (fst (loadProgress 1 2 saved_storage)) = core_fields saved_item"
  by (simp add: loadProgress_def loadProgress_try_def saved_storage_def saved_item_def
        validateProgressData_def defaultProgress_def Let_def array_filter_def
        valid_bookmark_def delete_key_def js_or_def core_fields_def)

lemma other_load:
  "core_fields (fst (loadProgress 1 2 other_storage))
     = [JArr [Some (JStr ''ch9'')], JArr [], JObj [], JObj [], JArr [], JObj []]"
  by (simp add: loadProgress_def loadProgress_try_def other_storage_def
        validateProgressData_def defaultProgress_def Let_def array_filter_def
        js_or_def core_fields_def assign_def set_key_def)

theorem export_import_restores_finite_progress_witness:
  "holds_finite_text saved_storage \<and> \<not> blocked saved_storage
   \<and> \<not> blocked other_storage \<and> \<not> quota_exceeded other_storage
   \<and> kept_by_validation 1 saved_item
   \<and> core_fields (fst (loadProgress 1 2 other_storage))
       = [JArr [Some (JStr ''ch9'')], JArr [], JObj [], JObj [], JArr [], JObj []]
   \<and> fst (importProgressData 1 4
         (the (fst (exportProgressData 1 3 ''2025-12-21T10:00:00.000Z'' saved_storage)))
         other_storage)
   \<and> core_fields (fst (loadProgress 1 5 (snd (importProgressData 1 4
         (the (fst (exportProgressData 1 3 ''2025-12-21T10:00:00.000Z'' saved_storage)))
         other_storage))))
       = core_fields saved_item
   \<and> stored_fields (snd (importProgressData 1 4
         (the (fst (exportProgressData 1 3 ''2025-12-21T10:00:00.000Z'' saved_storage)))
         other_storage))
       = Some (core_fields saved_item)"
proof -
  have h: "holds_finite_text saved_storage"
    by (simp add: holds_finite_text_def saved_storage_def saved_item_def)
  have f: "\<not> blocked saved_storage" "\<not> blocked other_storage" "\<not> quota_exceeded other_storage"
    by (simp_all add: saved_storage_def other_storage_def)
  have i: "item saved_storage = Some (Serialized saved_item)"
    by (simp add: saved_storage_def)
  have s: "stored_fields saved_storage = Some (core_fields saved_item)"
    by (simp add: stored_fields_def i)
  note T = export_import_restores_finite_progress [where st = saved_storage
      and target = other_storage and loaded = 1 and ?t1.0 = 3
      and exportDate = "''2025-12-21T10:00:00.000Z''" and ?t2.0 = 4 and ?t3.0 = 5 and ?t0.0 = 2,
      OF h f]
  obtain e s1 where ex: "exportProgressData 1 3 ''2025-12-21T10:00:00.000Z'' saved_storage = (e, s1)"
    by (cases "exportProgressData 1 3 ''2025-12-21T10:00:00.000Z'' saved_storage")
  show ?thesis
  proof (cases e)
    case None
    with T ex show ?thesis by simp
  next
    case (Some x)
    from T ex Some i saved_kept
    have a: "fst (importProgressData 1 4 x other_storage)"
      and b: "core_fields (fst (loadProgress 1 5 (snd (importProgressData 1 4 x other_storage))))
              = core_fields (fst (loadProgress 1 2 saved_storage))"
      and c: "stored_fields (snd (importProgressData 1 4 x other_storage))
              = stored_fields saved_storage"
      by auto
    from a b c ex Some saved_kept saved_load s h f other_load show ?thesis by simp
  qed
qed

end
